(* ===== verification/Prelude.thy ===== *)
theory Prelude
  imports Complex_Main "HOL-Library.Stream"
begin

text \<open>
  Shared vocabulary of the development.
  \<^item> The random source: the values \<open>Math.random()\<close> returns, in the order the program
    asks for them, as a stream of reals (\<open>rng\<close>); \<open>draws_ok\<close> is the contract of
    \<open>Math.random\<close> (every value lies in \<open>[0, 1)\<close>).
  \<^item> Results with errors: \<open>'e + 'a\<close>, \<open>Inl\<close> the thrown error; \<open>ebind\<close> sequences
    two fallible steps, \<open>rbind\<close> two fallible steps that also consume random draws.
  \<^item> Decimal digit strings (\<open>dec_string\<close>, \<open>digits_value\<close>) and their roundtrip, the
    arithmetic under JavaScript's \<open>Number\<close>, \<open>parseInt\<close> and number-to-string
    conversion.
\<close>

named_theorems model_simps "equations that evaluate the model on concrete inputs"

section \<open>The random source\<close>

type_synonym rng = "real stream"

definition draws_ok :: "rng \<Rightarrow> bool" where
  "draws_ok s \<longleftrightarrow> sset s \<subseteq> {0..<1}"

definition math_random :: "rng \<Rightarrow> real \<times> rng" where
  "math_random s = (shd s, stl s)"

lemma math_random_SCons [simp, model_simps]: "math_random (x ## s) = (x, s)"
  by (simp add: math_random_def)

lemma draws_ok_SCons [simp]: "draws_ok (x ## s) \<longleftrightarrow> 0 \<le> x \<and> x < 1 \<and> draws_ok s"
  by (auto simp: draws_ok_def)

lemma draws_ok_sconst [simp]: "draws_ok (sconst x) \<longleftrightarrow> 0 \<le> x \<and> x < 1"
  by (simp add: draws_ok_def)

lemma draws_ok_math_random:
  assumes "draws_ok s" and "math_random s = (r, s')"
  shows "0 \<le> r \<and> r < 1 \<and> draws_ok s'"
proof -
  have "s = r ## s'" using assms(2) by (auto simp: math_random_def intro: stream.expand)
  with assms(1) show ?thesis by simp
qed

lemma draws_ok_stl: "draws_ok s \<Longrightarrow> draws_ok (stl s)"
  by (cases s) simp

lemma draws_ok_sdrop: "draws_ok s \<Longrightarrow> draws_ok (sdrop n s)"
  by (induction n arbitrary: s) (simp_all add: draws_ok_stl)

section \<open>Results with errors\<close>

definition ebind :: "'e + 'a \<Rightarrow> ('a \<Rightarrow> 'e + 'b) \<Rightarrow> 'e + 'b" where
  "ebind x f = (case x of Inl e \<Rightarrow> Inl e | Inr a \<Rightarrow> f a)"

lemma ebind_Inl [simp]: "ebind (Inl e) f = Inl e"
  and ebind_Inr [simp]: "ebind (Inr a) f = f a"
  by (simp_all add: ebind_def)

text \<open>
  A step that may throw and consumes random draws returns its result with the rest of
  the random source; \<open>rbind\<close> runs the next step on that rest unless the first threw.
\<close>

definition rbind :: "('e + 'a) \<times> rng \<Rightarrow> ('a \<Rightarrow> rng \<Rightarrow> ('e + 'b) \<times> rng) \<Rightarrow> ('e + 'b) \<times> rng" where
  "rbind m f = (case m of (Inl e, s) \<Rightarrow> (Inl e, s) | (Inr a, s) \<Rightarrow> f a s)"

lemma rbind_Inl [simp]: "rbind (Inl e, s) f = (Inl e, s)"
  and rbind_Inr [simp]: "rbind (Inr a, s) f = f a s"
  by (simp_all add: rbind_def)

section \<open>Lists\<close>

lemma find_map_conv: "find P (map f xs) = map_option f (find (P \<circ> f) xs)"
  by (induction xs) simp_all

text \<open>A search from the end: \<open>find\<close> over \<open>b-1, ..., a\<close> returns the greatest index
  that satisfies the predicate.\<close>

lemma find_rev_upt:
  "find P (rev [a..<b]) = Some i \<longleftrightarrow> a \<le> i \<and> i < b \<and> P i \<and> (\<forall>j. i < j \<and> j < b \<longrightarrow> \<not> P j)"
proof (induction b)
  case 0
  then show ?case by simp
next
  case (Suc b)
  show ?case
  proof (cases "a \<le> b")
    case True
    then have r: "rev [a..<Suc b] = b # rev [a..<b]" by simp
    show ?thesis unfolding r find.simps using Suc.IH True by (auto simp: less_Suc_eq)
  next
    case False
    then show ?thesis by auto
  qed
qed

lemma option_eqI: "(\<And>i. x = Some i \<longleftrightarrow> y = Some i) \<Longrightarrow> x = y"
  by (cases x; cases y) auto

lemma find_rev_upt_restrict:
  "n \<le> N \<Longrightarrow> find (\<lambda>m. m < n \<and> P m) (rev [0..<N]) = find P (rev [0..<n])"
  by (rule option_eqI) (auto simp: find_rev_upt)

lemma take_takeWhile_le: "m \<le> length (takeWhile P r) \<Longrightarrow> take m (takeWhile P r) = take m r"
  by (subst takeWhile_eq_take) (simp add: min_def)

section \<open>Decimal digits\<close>

definition is_digit :: "char \<Rightarrow> bool" where
  "is_digit c \<longleftrightarrow> 48 \<le> (of_char c :: nat) \<and> (of_char c :: nat) \<le> 57"

definition digit_value :: "char \<Rightarrow> nat" where
  "digit_value c = of_char c - 48"

definition digits_value :: "string \<Rightarrow> nat" where
  "digits_value ds = foldl (\<lambda>n c. 10 * n + digit_value c) 0 ds"

definition digit_char :: "nat \<Rightarrow> char" where
  "digit_char d = ''0123456789'' ! d"

fun dec_string :: "nat \<Rightarrow> string" where
  "dec_string n = (if n < 10 then [digit_char n] else dec_string (n div 10) @ [digit_char (n mod 10)])"

declare dec_string.simps [simp del]

lemma of_char_digit_char: "d < 10 \<Longrightarrow> (of_char (digit_char d) :: nat) = 48 + d"
  by (auto simp: digit_char_def less_Suc_eq numeral_eq_Suc)

lemma is_digit_digit_char [simp]: "d < 10 \<Longrightarrow> is_digit (digit_char d)"
  by (simp add: is_digit_def of_char_digit_char)

lemma digit_value_digit_char [simp]: "d < 10 \<Longrightarrow> digit_value (digit_char d) = d"
  by (simp add: digit_value_def of_char_digit_char)

lemma digits_value_single [simp]: "digits_value [c] = digit_value c"
  by (simp add: digits_value_def)

lemma digits_value_snoc [simp]:
  "digits_value (ds @ [c]) = 10 * digits_value ds + digit_value c"
  by (simp add: digits_value_def)

lemma dec_string_ne [simp]: "dec_string n \<noteq> []"
  by (subst dec_string.simps) simp

lemma dec_string_digits: "\<forall>c \<in> set (dec_string n). is_digit c"
proof (induction n rule: dec_string.induct)
  case (1 n)
  then show ?case by (subst dec_string.simps) auto
qed

lemma digits_value_dec_string [simp]: "digits_value (dec_string n) = n"
proof (induction n rule: dec_string.induct)
  case (1 n)
  then show ?case by (subst dec_string.simps) auto
qed

lemma takeWhile_dec_string [simp]: "takeWhile is_digit (dec_string n) = dec_string n"
  using dec_string_digits [of n] by simp

lemma hd_dec_string_digit: "is_digit (hd (dec_string n))"
  using dec_string_digits [of n] dec_string_ne [of n] by (meson list.set_sel(1))

end
