(* ===== verification/JS_Runtime.thy ===== *)
theory JS_Runtime
  imports Prelude
begin

text \<open>
  The part of the JavaScript runtime the two source files rely on, as far as their
  behaviour depends on it: the values the generators receive (\<open>jsval\<close>), the thrown
  \<open>TypeError\<close>, truthiness and \<open>||\<close>, destructuring with defaults, conversion to a
  string (\<open>'' + v\<close> and \<open>v.toString()\<close>), \<open>parseInt(_, 10)\<close>, \<open>Math.round\<close> and
  \<open>String.prototype.split\<close> with a one-character separator. The main lemma is the
  roundtrip \<open>parseInt(String(n), 10) = n\<close> on integers.
\<close>

section \<open>Values and errors\<close>

text \<open>
  A JavaScript value as the code can see it. Numbers are the integers (\<open>JNum\<close>) and
  \<open>NaN\<close> (\<open>JNaN\<close>): every number the two source files compute is one of these.
  An object is the list of its own properties with distinct keys.
\<close>

datatype jsval =
    JUndef
  | JNull
  | JBool bool
  | JNum int
  | JNaN
  | JStr string
  | JObj "(string \<times> jsval) list"

datatype js_error = TypeError

fun js_truthy :: "jsval \<Rightarrow> bool" where
  "js_truthy JUndef = False"
| "js_truthy JNull = False"
| "js_truthy (JBool b) = b"
| "js_truthy (JNum n) = (n \<noteq> 0)"
| "js_truthy JNaN = False"
| "js_truthy (JStr s) = (s \<noteq> [])"
| "js_truthy (JObj ps) = True"

text \<open>\<open>a || b\<close>.\<close>

definition js_or :: "jsval \<Rightarrow> jsval \<Rightarrow> jsval" where
  "js_or a b = (if js_truthy a then a else b)"

text \<open>
  Property read \<open>v.k\<close> on a value that is neither \<open>undefined\<close> nor \<open>null\<close>. The code
  reads the keys \<open>min\<close>, \<open>max\<close>, \<open>len\<close> and \<open>format\<close> only, which no primitive
  prototype and not \<open>Object.prototype\<close> define, so on a primitive they are
  \<open>undefined\<close>.
\<close>

fun js_get :: "jsval \<Rightarrow> string \<Rightarrow> jsval" where
  "js_get (JObj ps) k = (case map_of ps k of Some v \<Rightarrow> v | None \<Rightarrow> JUndef)"
| "js_get v k = JUndef"

text \<open>
  The properties every plain object inherits from \<open>Object.prototype\<close>. A lookup
  \<open>obj[k]\<close> with one of these keys finds the inherited member, not \<open>undefined\<close>; the
  model of a lookup table keeps the own properties only, so statements about lookups
  by arbitrary keys exclude these.
\<close>

definition object_proto_keys :: "string list" where
  "object_proto_keys =
     [''constructor'', ''__defineGetter__'', ''__defineSetter__'', ''hasOwnProperty'',
      ''__lookupGetter__'', ''__lookupSetter__'', ''isPrototypeOf'', ''propertyIsEnumerable'',
      ''toString'', ''valueOf'', ''__proto__'', ''toLocaleString'']"

text \<open>
  \<open>const {k1, k2, ...} = v\<close>: throws a \<open>TypeError\<close> on \<open>undefined\<close> and \<open>null\<close>,
  otherwise gives access to the properties of \<open>v\<close>.
\<close>

definition js_destructure :: "jsval \<Rightarrow> js_error + (string \<Rightarrow> jsval)" where
  "js_destructure v = (if v = JUndef \<or> v = JNull then Inl TypeError else Inr (js_get v))"

text \<open>A destructuring default \<open>{k = d}\<close> applies when the property is \<open>undefined\<close>.\<close>

definition js_default :: "jsval \<Rightarrow> jsval \<Rightarrow> jsval" where
  "js_default d v = (if v = JUndef then d else v)"

section \<open>Conversion to strings\<close>

definition int_to_dec :: "int \<Rightarrow> string" where
  "int_to_dec n = (if n < 0 then CHR ''-'' # dec_string (nat (- n)) else dec_string (nat n))"

text \<open>\<open>'' + v\<close>, i.e. \<open>ToString(v)\<close>.\<close>

fun js_to_string :: "jsval \<Rightarrow> string" where
  "js_to_string JUndef = ''undefined''"
| "js_to_string JNull = ''null''"
| "js_to_string (JBool b) = (if b then ''true'' else ''false'')"
| "js_to_string (JNum n) = int_to_dec n"
| "js_to_string JNaN = ''NaN''"
| "js_to_string (JStr s) = s"
| "js_to_string (JObj ps) = ''[object Object]''"

text \<open>\<open>v.toString()\<close>: as \<open>ToString\<close>, but a method call on \<open>undefined\<close> or \<open>null\<close> throws.\<close>

definition js_to_string_method :: "jsval \<Rightarrow> js_error + string" where
  "js_to_string_method v =
     (if v = JUndef \<or> v = JNull then Inl TypeError else Inr (js_to_string v))"

section \<open>parseInt with radix 10\<close>

text \<open>
  \<open>parseInt(s, 10)\<close>: skip leading white space, read one optional sign, then the
  longest run of decimal digits; no digit gives \<open>NaN\<close> (\<open>None\<close>).
\<close>

definition is_js_space :: "char \<Rightarrow> bool" where
  "is_js_space c \<longleftrightarrow> (of_char c :: nat) \<in> {9, 10, 11, 12, 13, 32, 160}"

definition parse_sign :: "string \<Rightarrow> int \<times> string" where
  "parse_sign t =
     (case t of
        c # r \<Rightarrow> if c = CHR ''-'' then (- 1, r) else if c = CHR ''+'' then (1, r) else (1, t)
      | [] \<Rightarrow> (1, []))"

definition parse_int :: "string \<Rightarrow> int option" where
  "parse_int s =
     (let (sg, u) = parse_sign (dropWhile is_js_space s);
          ds = takeWhile is_digit u
      in if ds = [] then None else Some (sg * int (digits_value ds)))"

text \<open>\<open>Math.round(x)\<close> on a finite number: the nearest integer, halves upwards.\<close>

definition js_round :: "real \<Rightarrow> int" where
  "js_round x = \<lfloor>x + 1 / 2\<rfloor>"

section \<open>String.prototype.split with a one-character separator\<close>

fun js_split :: "char \<Rightarrow> string \<Rightarrow> string list" where
  "js_split d [] = [[]]"
| "js_split d (c # cs) =
     (let ws = js_split d cs in if c = d then [] # ws else (c # hd ws) # tl ws)"

text \<open>\<open>Array.prototype.join(d)\<close> on strings: the inverse direction, used to print directives.\<close>

fun js_join :: "char \<Rightarrow> string list \<Rightarrow> string" where
  "js_join d [] = []"
| "js_join d [t] = t"
| "js_join d (t # u # ts) = t @ d # js_join d (u # ts)"

section \<open>Lemmas\<close>

subsection \<open>split\<close>

lemma js_split_ne [simp]: "js_split d s \<noteq> []"
  by (induction s) (simp_all add: Let_def)

lemma js_split_no_sep: "w \<in> set (js_split d s) \<Longrightarrow> d \<notin> set w"
proof (induction s arbitrary: w)
  case Nil
  then show ?case by simp
next
  case (Cons c cs)
  obtain w0 ws where ws: "js_split d cs = w0 # ws"
    by (cases "js_split d cs") auto
  have "d \<notin> set w0" and "\<forall>v \<in> set ws. d \<notin> set v"
    using Cons.IH ws by auto
  with Cons.prems ws show ?case
    by (auto simp: Let_def split: if_splits)
qed

lemma js_split_subset: "w \<in> set (js_split d s) \<Longrightarrow> set w \<subseteq> set s"
proof (induction s arbitrary: w)
  case Nil
  then show ?case by simp
next
  case (Cons c cs)
  obtain w0 ws where ws: "js_split d cs = w0 # ws"
    by (cases "js_split d cs") auto
  have "set w0 \<subseteq> set cs" and "\<forall>v \<in> set ws. set v \<subseteq> set cs"
    using Cons.IH ws by auto
  with Cons.prems ws show ?case
    by (auto simp: Let_def split: if_splits)
qed

lemma js_split_append_nosep:
  "d \<notin> set xs \<Longrightarrow> js_split d (xs @ ys) = (xs @ hd (js_split d ys)) # tl (js_split d ys)"
  by (induction xs) (auto simp: Let_def)

lemma js_split_nosep: "d \<notin> set xs \<Longrightarrow> js_split d xs = [xs]"
  using js_split_append_nosep [of d xs "[]"] by simp

lemma js_split_sep:
  "d \<notin> set xs \<Longrightarrow> js_split d (xs @ d # ys) = xs # js_split d ys"
  using js_split_append_nosep [of d xs "d # ys"] by (simp add: Let_def)

text \<open>Splitting a string joined with the separator gives back the pieces.\<close>

lemma js_split_join:
  "ts \<noteq> [] \<Longrightarrow> (\<And>t. t \<in> set ts \<Longrightarrow> d \<notin> set t) \<Longrightarrow> js_split d (js_join d ts) = ts"
proof (induction ts rule: list_nonempty_induct)
  case (single t)
  then show ?case by (simp add: js_split_nosep)
next
  case (cons t ts)
  then obtain u us where "ts = u # us" by (cases ts) auto
  with cons show ?case by (simp add: js_split_sep)
qed

lemma js_join_split: "js_join d (js_split d s) = s"
proof (induction s)
  case Nil
  then show ?case by simp
next
  case (Cons c cs)
  obtain w ws where ws: "js_split d cs = w # ws"
    by (cases "js_split d cs") auto
  with Cons.IH show ?case
    by (cases ws) (auto simp: Let_def)
qed

subsection \<open>parseInt\<close>

lemma is_digit_not_special:
  assumes "is_digit c"
  shows "\<not> is_js_space c" and "c \<noteq> CHR ''-''" and "c \<noteq> CHR ''+''"
  using assms by (auto simp: is_digit_def is_js_space_def)

lemma parse_int_digits:
  assumes "ds \<noteq> []" and "\<forall>c \<in> set ds. is_digit c"
  shows "parse_int ds = Some (int (digits_value ds))"
proof -
  obtain c r where ds: "ds = c # r" using assms(1) by (cases ds) auto
  with assms(2) have "is_digit c" by simp
  then have "dropWhile is_js_space ds = ds" and "parse_sign ds = (1, ds)"
    using is_digit_not_special [of c] by (simp_all add: ds parse_sign_def)
  moreover have "takeWhile is_digit ds = ds" using assms(2) by simp
  ultimately show ?thesis using assms(1)
    by (simp add: parse_int_def Let_def del: takeWhile_eq_all_conv)
qed

text \<open>\<open>parseInt(String(n), 10) = n\<close> on every integer.\<close>

lemma parse_int_int_to_dec [simp]: "parse_int (int_to_dec n) = Some n"
proof (cases "n < 0")
  case True
  have h: "is_digit (hd (dec_string (nat (- n))))" by (rule hd_dec_string_digit)
  then have "\<not> is_js_space (CHR ''-'')" by (simp add: is_js_space_def)
  then show ?thesis using True
    by (simp add: parse_int_def int_to_dec_def parse_sign_def)
next
  case False
  obtain c r where ds: "dec_string (nat n) = c # r"
    using dec_string_ne by (cases "dec_string (nat n)") auto
  then have "is_digit c" using hd_dec_string_digit [of "nat n"] by simp
  then have "parse_int (dec_string (nat n)) = Some (int (nat n))"
    using parse_int_digits dec_string_digits by simp
  with False show ?thesis by (simp add: int_to_dec_def)
qed

text \<open>\<open>parseInt\<close> reads the longest digit prefix: text after the number is ignored.\<close>

lemma takeWhile_dec_string_append:
  "rest = [] \<or> \<not> is_digit (hd rest) \<Longrightarrow> takeWhile is_digit (dec_string n @ rest) = dec_string n"
  using dec_string_digits [of n] by (cases rest) (auto simp: takeWhile_append2)

lemma parse_int_prefix:
  assumes "rest = [] \<or> \<not> is_digit (hd rest)"
  shows "parse_int (int_to_dec n @ rest) = Some n"
proof -
  obtain c r where ds: "dec_string (nat \<bar>n\<bar>) = c # r"
    using dec_string_ne by (cases "dec_string (nat \<bar>n\<bar>)") auto
  then have c: "is_digit c" using hd_dec_string_digit [of "nat \<bar>n\<bar>"] by simp
  have sp: "\<not> is_js_space (CHR ''-'')" by (simp add: is_js_space_def)
  show ?thesis
  proof (cases "n < 0")
    case True
    then show ?thesis using takeWhile_dec_string_append [OF assms, of "nat (- n)"] sp
      by (simp add: parse_int_def int_to_dec_def parse_sign_def)
  next
    case False
    have "dropWhile is_js_space (dec_string (nat n) @ rest) = dec_string (nat n) @ rest"
      and "parse_sign (dec_string (nat n) @ rest) = (1, dec_string (nat n) @ rest)"
      using ds c is_digit_not_special [of c] False by (simp_all add: parse_sign_def)
    then show ?thesis using takeWhile_dec_string_append [OF assms, of "nat n"] False
      by (simp add: parse_int_def int_to_dec_def)
  qed
qed

lemma parse_int_to_string_num [simp]: "parse_int (js_to_string (JNum n)) = Some n"
  by simp

text \<open>The strings of the other non-string values have no digits: \<open>parseInt\<close> gives \<open>NaN\<close>.\<close>

lemma parse_int_to_string_other:
  "\<not> (\<exists>n. v = JNum n) \<Longrightarrow> \<not> (\<exists>s. v = JStr s) \<Longrightarrow> parse_int (js_to_string v) = None"
  by (cases v)
     (simp_all add: parse_int_def parse_sign_def is_js_space_def is_digit_def)

subsection \<open>Math.round\<close>

lemma js_round_of_int [simp]: "js_round (of_int k) = k"
  by (simp add: js_round_def)

lemma js_round_between:
  assumes "of_int a \<le> x" and "x \<le> of_int b"
  shows "a \<le> js_round x \<and> js_round x \<le> b"
proof -
  have "a \<le> \<lfloor>x + 1 / 2\<rfloor>" using assms(1) by (simp add: le_floor_iff)
  moreover have "\<lfloor>x + 1 / 2\<rfloor> \<le> b" using assms(2) by (simp add: floor_le_iff)
  ultimately show ?thesis by (simp add: js_round_def)
qed

lemmas js_value_simps [model_simps] =
  js_or_def js_destructure_def js_default_def js_to_string_method_def

end
