(* ===== verification/Generators.thy ===== *)
theory Generators
  imports JS_Runtime
begin

text \<open>
  The random generators of \<^verbatim>\<open>src/lsd/src/random/basic.ts\<close>: \<open>integer\<close>, \<open>char\<close>,
  \<open>string\<close> with its length policy \<open>_getLength\<close>, \<open>boolean\<close>, \<open>randomDate\<close>,
  \<open>date\<close> and \<open>time\<close>. Each takes the option value it is called with and the random
  source, and returns its result or the error it throws, with the rest of the random
  source. The constants of \<^verbatim>\<open>utils/const\<close> (not among the sources) are the record
  \<open>js_consts\<close>; the clock and the \<open>dayjs\<close> formatter, external collaborators, are
  fields of \<open>runtime\<close>. The lemmas give each generator's result on every branch: the
  bounds of \<open>integer\<close>, the alphabet of \<open>char\<close>, the length policy of \<open>string\<close> (and
  where it breaks the length bounds), the errors of \<open>integer\<close> and \<open>date\<close>, the closed
  form of the string loop, and that each exported generator reads a finite prefix of
  the draws.
\<close>

section \<open>Constants and environment\<close>

record js_consts =
  STRING_MIN_LEN :: int
  STRING_MAX_LEN :: int
  DATE_DEFAULT_FOMAT :: string
  TIME_DEFAULT_FOMAT :: string

text \<open>The length bounds are meaningful when \<open>0 \<le> STRING_MIN_LEN \<le> STRING_MAX_LEN\<close>.\<close>

definition consts_ok :: "js_consts \<Rightarrow> bool" where
  "consts_ok c \<longleftrightarrow> 0 \<le> STRING_MIN_LEN c \<and> STRING_MIN_LEN c \<le> STRING_MAX_LEN c"

text \<open>
  \<open>now\<close> is \<open>new Date().getTime()\<close> at the call; \<open>dayjs_format f t\<close> is
  \<open>dayjs(new Date(t)).format(f)\<close>, with \<open>None\<close> for an invalid date.
\<close>

record runtime =
  cfg :: js_consts
  now :: int
  dayjs_format :: "jsval \<Rightarrow> int option \<Rightarrow> string"

definition MIN_SAFE_INTEGER :: int where
  "MIN_SAFE_INTEGER = - (2 ^ 53 - 1)"

definition MAX_SAFE_INTEGER :: int where
  "MAX_SAFE_INTEGER = 2 ^ 53 - 1"

section \<open>integer\<close>

text \<open>
  \<open>typeof v !== 'undefined' ? parseInt(v.toString(), 10) : d\<close>; \<open>None\<close> is \<open>NaN\<close>.
\<close>

definition bound_value :: "jsval \<Rightarrow> int \<Rightarrow> js_error + int option" where
  "bound_value v d =
     (if v \<noteq> JUndef then ebind (js_to_string_method v) (\<lambda>s. Inr (parse_int s)) else Inr (Some d))"

text \<open>
  \<open>Math.random()\<close> is called once the bounds are read; \<open>NaN\<close> in a bound makes the
  result \<open>NaN\<close>.
\<close>

definition integer :: "jsval \<Rightarrow> rng \<Rightarrow> (js_error + jsval) \<times> rng" where
  "integer opt rng =
     (case ebind (js_destructure (js_or opt (JObj []))) (\<lambda>get.
             ebind (bound_value (get ''min'') MIN_SAFE_INTEGER) (\<lambda>minVal.
             ebind (bound_value (get ''max'') MAX_SAFE_INTEGER) (\<lambda>maxVal.
             Inr (minVal, maxVal)))) of
        Inl e \<Rightarrow> (Inl e, rng)
      | Inr (minVal, maxVal) \<Rightarrow>
          (let (r, rng') = math_random rng
           in (Inr (case (minVal, maxVal) of
                      (Some mn, Some mx) \<Rightarrow> JNum (js_round (r * of_int (mx - mn) + of_int mn))
                    | _ \<Rightarrow> JNaN), rng')))"

section \<open>char\<close>

definition allChar :: string where
  "allChar = ''ABCDEFGHIJKLMNOPQRSTUVWXYZabcdefghijklmnopqrstuvwxyz0123456789''"

text \<open>\<open>s.charAt(i)\<close>: the empty string out of range.\<close>

definition js_charAt :: "string \<Rightarrow> int \<Rightarrow> string" where
  "js_charAt s i = (if 0 \<le> i \<and> i < int (length s) then [s ! nat i] else [])"

text \<open>\<open>integer\<close> returns a number; \<open>NaN\<close> converts to position 0.\<close>

definition char_gen :: "rng \<Rightarrow> (js_error + string) \<times> rng" where
  "char_gen rng =
     (let charsLen = int (length allChar) - 1
      in rbind (integer (JObj [(''min'', JNum 0), (''max'', JNum charsLen)]) rng)
           (\<lambda>v rng'. (Inr (case v of JNum i \<Rightarrow> js_charAt allChar i | _ \<Rightarrow> js_charAt allChar 0), rng')))"

section \<open>string and _getLength\<close>

text \<open>\<open>parseInt('' + v, 10)\<close> of a property read with the destructuring default \<open>d\<close>.\<close>

definition opt_int :: "jsval \<Rightarrow> jsval \<Rightarrow> int option" where
  "opt_int d v = parse_int (js_to_string (js_default d v))"

text \<open>
  \<open>if (!_.isInteger(max) || !max || max > STRING_MAX_LEN) max = STRING_MAX_LEN\<close>
  and the same for \<open>min\<close>: \<open>NaN\<close> fails \<open>isInteger\<close>, \<open>0\<close> is falsy.
\<close>

definition clamp_max :: "js_consts \<Rightarrow> int option \<Rightarrow> int" where
  "clamp_max c m =
     (case m of None \<Rightarrow> STRING_MAX_LEN c
      | Some v \<Rightarrow> if v = 0 \<or> STRING_MAX_LEN c < v then STRING_MAX_LEN c else v)"

definition clamp_min :: "js_consts \<Rightarrow> int option \<Rightarrow> int" where
  "clamp_min c m =
     (case m of None \<Rightarrow> STRING_MIN_LEN c
      | Some v \<Rightarrow> if v = 0 \<or> v < STRING_MIN_LEN c then STRING_MIN_LEN c else v)"

text \<open>The sanitised bounds and the parsed \<open>len\<close> of the options \<open>get\<close>.\<close>

definition string_min :: "js_consts \<Rightarrow> (string \<Rightarrow> jsval) \<Rightarrow> int" where
  "string_min c get = clamp_min c (opt_int (JNum (STRING_MIN_LEN c)) (get ''min''))"

definition string_max :: "js_consts \<Rightarrow> (string \<Rightarrow> jsval) \<Rightarrow> int" where
  "string_max c get = clamp_max c (opt_int (JNum (STRING_MAX_LEN c)) (get ''max''))"

definition string_len :: "(string \<Rightarrow> jsval) \<Rightarrow> int option" where
  "string_len get = opt_int JUndef (get ''len'')"

text \<open>
  \<open>typeof len !== 'undefined'\<close> always holds (\<open>parseInt\<close> returns a number), and
  \<open>_.isInteger(len)\<close> holds when it is not \<open>NaN\<close>.
\<close>

definition len_ok :: "js_consts \<Rightarrow> int option \<Rightarrow> bool" where
  "len_ok c l =
     (case l of None \<Rightarrow> False | Some v \<Rightarrow> STRING_MIN_LEN c \<le> v \<and> v \<le> STRING_MAX_LEN c)"

definition get_length :: "js_consts \<Rightarrow> jsval \<Rightarrow> rng \<Rightarrow> (js_error + jsval) \<times> rng" where
  "get_length c opt rng =
     (case js_destructure opt of
        Inl e \<Rightarrow> (Inl e, rng)
      | Inr get \<Rightarrow>
          (if len_ok c (string_len get) then (Inr (JNum (the (string_len get))), rng)
           else integer (JObj [(''min'', JNum (string_min c get)), (''max'', JNum (string_max c get))]) rng))"

text \<open>\<open>for (let i = 0; i < strLen; i++) res += char();\<close>\<close>

primrec string_loop :: "nat \<Rightarrow> string \<Rightarrow> rng \<Rightarrow> (js_error + string) \<times> rng" where
  "string_loop 0 res rng = (Inr res, rng)"
| "string_loop (Suc n) res rng = rbind (char_gen rng) (\<lambda>ch rng'. string_loop n (res @ ch) rng')"

text \<open>The number of iterations of \<open>i < strLen\<close> from \<open>i = 0\<close>; none for \<open>NaN\<close>.\<close>

fun loop_count :: "jsval \<Rightarrow> nat" where
  "loop_count (JNum n) = nat n"
| "loop_count v = 0"

definition string_gen :: "js_consts \<Rightarrow> jsval \<Rightarrow> rng \<Rightarrow> (js_error + jsval) \<times> rng" where
  "string_gen c opt rng =
     rbind (get_length c (js_or opt (JObj [])) rng)
       (\<lambda>strLen rng'. rbind (string_loop (loop_count strLen) [] rng') (\<lambda>res rng''. (Inr (JStr res), rng'')))"

section \<open>boolean, randomDate, date, time\<close>

definition boolean :: "rng \<Rightarrow> (js_error + jsval) \<times> rng" where
  "boolean rng = (let (r, rng') = math_random rng in (Inr (JBool (1 / 2 \<le> r)), rng'))"

text \<open>\<open>new Date(t)\<close>: TimeClip, \<open>None\<close> for an invalid date.\<close>

definition js_time_clip :: "real \<Rightarrow> int option" where
  "js_time_clip t =
     (if \<bar>t\<bar> \<le> 8640000000000000 then Some (if 0 \<le> t then \<lfloor>t\<rfloor> else \<lceil>t\<rceil>) else None)"

definition random_date :: "int \<Rightarrow> rng \<Rightarrow> int option \<times> rng" where
  "random_date nowT rng =
     (let minT = 0; maxT = nowT; (r, rng') = math_random rng
      in (js_time_clip (r * of_int (maxT - minT)), rng'))"

definition date :: "runtime \<Rightarrow> jsval \<Rightarrow> rng \<Rightarrow> (js_error + jsval) \<times> rng" where
  "date e opt rng =
     (case js_destructure opt of
        Inl err \<Rightarrow> (Inl err, rng)
      | Inr get \<Rightarrow>
          (let format = js_default (JStr (DATE_DEFAULT_FOMAT (cfg e))) (get ''format'');
               (curDate, rng') = random_date (now e) rng
           in (Inr (JStr (dayjs_format e format curDate)), rng')))"

definition time :: "runtime \<Rightarrow> jsval \<Rightarrow> rng \<Rightarrow> (js_error + jsval) \<times> rng" where
  "time e opt rng =
     (case js_destructure opt of
        Inl err \<Rightarrow> (Inl err, rng)
      | Inr get \<Rightarrow>
          (let format = js_default (JStr (TIME_DEFAULT_FOMAT (cfg e))) (get ''format'');
               (curDate, rng') = random_date (now e) rng
           in (Inr (JStr (dayjs_format e format curDate)), rng')))"

section \<open>The module's exports\<close>

text \<open>
  \<^verbatim>\<open>export { integer, string, boolean, date, time }\<close>: the generators the module
  exports, by name, each a function of its options parameter (\<open>boolean\<close> ignores it).
  \<open>char\<close>, \<open>_getLength\<close> and \<open>randomDate\<close> are not exported.
\<close>

definition basic_exports :: "runtime \<Rightarrow> string \<Rightarrow> (jsval \<Rightarrow> rng \<Rightarrow> (js_error + jsval) \<times> rng) option" where
  "basic_exports e name =
     (if name = ''integer'' then Some integer
      else if name = ''string'' then Some (string_gen (cfg e))
      else if name = ''boolean'' then Some (\<lambda>opt. boolean)
      else if name = ''date'' then Some (date e)
      else if name = ''time'' then Some (time e)
      else None)"

section \<open>Generators as the resolver calls them\<close>

text \<open>
  The resolver calls a generator with its arguments spread (\<open>func(...args)\<close>); the
  generators above read their first parameter only, \<open>undefined\<close> when there is none.
\<close>

type_synonym generator = "jsval list \<Rightarrow> rng \<Rightarrow> (js_error + jsval) \<times> rng"

definition js_arg :: "jsval list \<Rightarrow> jsval" where
  "js_arg args = (case args of [] \<Rightarrow> JUndef | a # _ \<Rightarrow> a)"

section \<open>Reference definitions\<close>

text \<open>The character \<open>char()\<close> is specified to return for a draw \<open>r\<close>: the one at index
  \<open>round(r * (allChar.length - 1))\<close>.\<close>

definition char_of_draw :: "real \<Rightarrow> char" where
  "char_of_draw r = allChar ! nat (js_round (r * 61))"

section \<open>Lemmas\<close>

subsection \<open>integer\<close>

lemma js_or_obj_destructure [simp]:
  "js_destructure (js_or opt (JObj [])) = Inr (js_get (js_or opt (JObj [])))"
  by (cases opt) (simp_all add: js_value_simps)

text \<open>\<open>integer({min, max})\<close> on two numbers: one draw, rounded into the range.\<close>

lemma integer_nums:
  "integer (JObj [(''min'', JNum mn), (''max'', JNum mx)]) rng =
     (Inr (JNum (js_round (shd rng * of_int (mx - mn) + of_int mn))), stl rng)"
  by (simp add: integer_def js_value_simps bound_value_def math_random_def)

lemma draw_between:
  fixes r :: real
  assumes "0 \<le> r" and "r < 1" and "mn \<le> mx"
  shows "mn \<le> js_round (r * of_int (mx - mn) + of_int mn) \<and>
         js_round (r * of_int (mx - mn) + of_int mn) \<le> mx"
proof (rule js_round_between)
  have "0 \<le> r * of_int (mx - mn)" using assms by simp
  then show "of_int mn \<le> r * of_int (mx - mn) + of_int mn" by simp
  have "r * of_int (mx - mn) \<le> of_int (mx - mn)"
    using assms by (simp add: mult_left_le_one_le)
  then show "r * of_int (mx - mn) + of_int mn \<le> of_int mx" by simp
qed

lemma draw_between_rev:
  fixes r :: real
  assumes "0 \<le> r" and "r < 1" and "mx \<le> mn"
  shows "mx \<le> js_round (r * of_int (mx - mn) + of_int mn) \<and>
         js_round (r * of_int (mx - mn) + of_int mn) \<le> mn"
proof (rule js_round_between)
  have "r * of_int (mn - mx) \<le> of_int (mn - mx)"
    using assms by (simp add: mult_left_le_one_le)
  then show "of_int mx \<le> r * of_int (mx - mn) + of_int mn" by (simp add: algebra_simps)
  have "0 \<le> r * of_int (mn - mx)" using assms by simp
  then show "r * of_int (mx - mn) + of_int mn \<le> of_int mn" by (simp add: algebra_simps)
qed

lemma draws_ok_shd: "draws_ok rng \<Longrightarrow> 0 \<le> shd rng \<and> shd rng < 1"
  using draws_ok_math_random [of rng "shd rng" "stl rng"] by (simp add: math_random_def)

text \<open>\<open>integer({min, max})\<close> with \<open>min \<le> max\<close> returns an integer of \<open>[min, max]\<close>
  and consumes exactly one value of \<open>Math.random\<close>.\<close>

lemma integer_in_range:
  assumes "draws_ok rng" and "mn \<le> mx"
  shows "\<exists>k. integer (JObj [(''min'', JNum mn), (''max'', JNum mx)]) rng = (Inr (JNum k), stl rng)
             \<and> mn \<le> k \<and> k \<le> mx"
  using draw_between [OF _ _ assms(2)] draws_ok_shd [OF assms(1)] by (simp add: integer_nums)


lemma js_get_or_primitive [simp]:
  "(\<And>ps. opt \<noteq> JObj ps) \<Longrightarrow> js_get (js_or opt (JObj [])) k = JUndef"
  by (cases opt) (auto simp: js_or_def)

lemma js_or_obj [simp]: "js_or (JObj ps) d = JObj ps"
  by (simp add: js_or_def)

lemma integer_primitive:
  assumes "\<And>ps. opt \<noteq> JObj ps"
  shows "integer opt rng =
           integer (JObj [(''min'', JNum MIN_SAFE_INTEGER), (''max'', JNum MAX_SAFE_INTEGER)]) rng"
  unfolding integer_nums using js_get_or_primitive [OF assms]
  by (simp add: integer_def bound_value_def math_random_def)

text \<open>C28: \<open>integer()\<close> without bounds (or called with a primitive, whose \<open>min\<close> and
  \<open>max\<close> are \<open>undefined\<close>) returns a safe integer, drawn over
  \<open>[Number.MIN_SAFE_INTEGER, Number.MAX_SAFE_INTEGER]\<close>.\<close>

theorem integer_default_safe:
  assumes "draws_ok rng" and "\<And>ps. opt \<noteq> JObj ps"
  shows "\<exists>k. integer opt rng = (Inr (JNum k), stl rng) \<and> MIN_SAFE_INTEGER \<le> k \<and> k \<le> MAX_SAFE_INTEGER"
proof -
  have "MIN_SAFE_INTEGER \<le> MAX_SAFE_INTEGER" by (simp add: MIN_SAFE_INTEGER_def MAX_SAFE_INTEGER_def)
  from integer_in_range [OF assms(1) this] show ?thesis
    by (simp add: integer_primitive [OF assms(2)])
qed

theorem integer_default_safe_witness:
  "\<exists>k. integer JUndef (sconst 0) = (Inr (JNum k), stl (sconst 0))
       \<and> MIN_SAFE_INTEGER \<le> k \<and> k \<le> MAX_SAFE_INTEGER"
  by (rule integer_default_safe) simp_all

lemma js_destructure_or: "js_destructure (js_or opt (JObj [])) = Inr (js_get (js_or opt (JObj [])))"
  by (cases opt) (simp_all add: js_destructure_def js_or_def)

text \<open>C29: \<open>integer(opt)\<close> throws exactly when a bound of \<open>opt || {}\<close> is \<open>null\<close>
  (\<open>typeof null\<close> is \<open>'object'\<close>, so \<open>null.toString()\<close> is called): the error is then
  a \<open>TypeError\<close> thrown before drawing; every other option value, primitives and
  objects with any bounds included, gives a value.\<close>

theorem integer_null_bound_throws:
  "(integer opt rng = (Inl TypeError, rng)
      \<longleftrightarrow> js_get (js_or opt (JObj [])) ''min'' = JNull \<or> js_get (js_or opt (JObj [])) ''max'' = JNull)
   \<and> (isl (fst (integer opt rng))
      \<longleftrightarrow> js_get (js_or opt (JObj [])) ''min'' = JNull \<or> js_get (js_or opt (JObj [])) ''max'' = JNull)"
  by (auto simp: integer_def js_destructure_or math_random_def bound_value_def js_to_string_method_def
      ebind_def split: sum.splits prod.splits)

text \<open>C30: a bound that \<open>parseInt\<close> cannot read makes \<open>integer\<close> return \<open>NaN\<close>,
  not a number of the range nor a default.\<close>

theorem integer_unparsable_bound_nan:
  assumes "parse_int s = None"
  shows "integer (JObj [(''min'', JStr s)]) rng = (Inr JNaN, stl rng)"
  using assms by (simp add: integer_def bound_value_def js_value_simps math_random_def)

theorem integer_unparsable_bound_nan_witness:
  "parse_int ''asdfa'' = None \<and> integer (JObj [(''min'', JStr ''asdfa'')]) (sconst 0) = (Inr JNaN, stl (sconst 0))"
proof -
  have h: "parse_int ''asdfa'' = None"
    by (simp add: parse_int_def parse_sign_def is_js_space_def is_digit_def)
  show ?thesis using integer_unparsable_bound_nan [OF h] h by simp
qed

text \<open>C25: \<open>integer({min, max})\<close> on two numbers returns an integer between
  them in either order (\<open>min > max\<close> is not rejected: the draw runs downwards from
  \<open>min\<close>) and consumes one value of \<open>Math.random\<close>.\<close>

theorem integer_within_bounds:
  assumes "draws_ok rng"
  shows "\<exists>k. integer (JObj [(''min'', JNum mn), (''max'', JNum mx)]) rng = (Inr (JNum k), stl rng)
             \<and> min mn mx \<le> k \<and> k \<le> max mn mx"
proof (cases "mn \<le> mx")
  case True
  then show ?thesis
    using draw_between [OF _ _ True] draws_ok_shd [OF assms] by (simp add: integer_nums)
next
  case False
  then have "mx \<le> mn" by simp
  then show ?thesis
    using draw_between_rev [OF _ _ \<open>mx \<le> mn\<close>] draws_ok_shd [OF assms] False by (simp add: integer_nums)
qed

theorem integer_within_bounds_witness:
  "\<exists>k. integer (JObj [(''min'', JNum 10), (''max'', JNum 1)]) (sconst (1 / 2)) = (Inr (JNum k), stl (sconst (1 / 2)))
       \<and> min 10 1 \<le> k \<and> k \<le> max 10 (1::int)"
  by (rule integer_within_bounds) simp

subsection \<open>char\<close>

lemma length_allChar [simp]: "length allChar = 62"
  by (simp add: allChar_def)

text \<open>\<open>char()\<close> returns one character of the 62-letter alphabet and consumes one draw.\<close>

lemma char_gen_alphabet:
  assumes "draws_ok rng"
  shows "\<exists>ch. char_gen rng = (Inr [ch], stl rng) \<and> ch \<in> set allChar"
proof -
  obtain k where k: "integer (JObj [(''min'', JNum 0), (''max'', JNum 61)]) rng = (Inr (JNum k), stl rng)"
    and "0 \<le> k" "k \<le> 61"
    using integer_in_range [OF assms, of 0 61] by auto
  then have "js_charAt allChar k = [allChar ! nat k]" and "allChar ! nat k \<in> set allChar"
    by (simp_all add: js_charAt_def)
  with k show ?thesis by (simp add: char_gen_def)
qed


text \<open>\<open>char()\<close> returns the character at \<open>Math.round(r * 61)\<close> for its draw \<open>r\<close>.\<close>

lemma char_gen_draw:
  assumes "draws_ok rng"
  shows "char_gen rng = (Inr [char_of_draw (shd rng)], stl rng)"
proof -
  have "0 \<le> js_round (shd rng * 61) \<and> js_round (shd rng * 61) \<le> 61"
    using draw_between [of "shd rng" 0 61] draws_ok_shd [OF assms] by simp
  then show ?thesis
    using integer_nums [of 0 61 rng] by (simp add: char_gen_def js_charAt_def char_of_draw_def)
qed

text \<open>C23: the accumulating loop of \<open>string\<close> is the closed form: after \<open>n\<close> rounds the
  result is the accumulator followed by the characters of the next \<open>n\<close> draws, and
  exactly those \<open>n\<close> draws are consumed.\<close>

theorem string_loop_closed_form:
  assumes "draws_ok rng"
  shows "string_loop n res rng = (Inr (res @ map char_of_draw (stake n rng)), sdrop n rng)"
  using assms
proof (induction n arbitrary: res rng)
  case 0
  then show ?case by simp
next
  case (Suc n)
  have "string_loop n (res @ [char_of_draw (shd rng)]) (stl rng)
          = (Inr (res @ [char_of_draw (shd rng)] @ map char_of_draw (stake n (stl rng))), sdrop n (stl rng))"
    using Suc.IH [of "stl rng" "res @ [char_of_draw (shd rng)]"] draws_ok_stl [OF Suc.prems] by simp
  then show ?case by (simp add: char_gen_draw [OF Suc.prems])
qed

theorem string_loop_closed_form_witness:
  "string_loop 2 ''ab'' (sconst 0) = (Inr (''ab'' @ map char_of_draw (stake 2 (sconst 0))), sdrop 2 (sconst 0))"
  by (rule string_loop_closed_form) simp


subsection \<open>_getLength\<close>

lemma clamp_max_le: "clamp_max c m \<le> STRING_MAX_LEN c"
  by (auto simp: clamp_max_def split: option.splits)

lemma clamp_min_ge: "STRING_MIN_LEN c \<le> clamp_min c m"
  by (auto simp: clamp_min_def split: option.splits)

lemma string_min_ge: "STRING_MIN_LEN c \<le> string_min c get"
  by (simp add: string_min_def clamp_min_ge)

lemma string_max_le: "string_max c get \<le> STRING_MAX_LEN c"
  by (simp add: string_max_def clamp_max_le)

text \<open>With no option given, the bounds are the constants and there is no \<open>len\<close>.\<close>

lemma string_bounds_undefined [simp]:
  "string_min c (\<lambda>k. JUndef) = STRING_MIN_LEN c"
  "string_max c (\<lambda>k. JUndef) = STRING_MAX_LEN c"
  "string_len (\<lambda>k. JUndef) = None"
    apply (simp add: string_min_def opt_int_def js_default_def clamp_min_def)
   apply (simp add: string_max_def opt_int_def js_default_def clamp_max_def)
  using parse_int_to_string_other [of JUndef] by (simp add: string_len_def opt_int_def js_default_def)

lemma get_length_obj:
  "opt \<noteq> JUndef \<Longrightarrow> opt \<noteq> JNull \<Longrightarrow>
   get_length c opt rng =
     (if len_ok c (string_len (js_get opt)) then (Inr (JNum (the (string_len (js_get opt)))), rng)
      else integer (JObj [(''min'', JNum (string_min c (js_get opt))),
                          (''max'', JNum (string_max c (js_get opt)))]) rng)"
  by (simp add: get_length_def js_destructure_def)

text \<open>C18: an explicit \<open>len\<close> within the bounds is the length, whatever \<open>min\<close> and
  \<open>max\<close> say, and no random value is consumed.\<close>

theorem get_length_len_priority:
  assumes "opt \<noteq> JUndef" and "opt \<noteq> JNull"
    and "string_len (js_get opt) = Some l"
    and "STRING_MIN_LEN c \<le> l" and "l \<le> STRING_MAX_LEN c"
  shows "get_length c opt rng = (Inr (JNum l), rng)"
  using assms by (simp add: get_length_obj len_ok_def)

theorem get_length_len_priority_witness:
  "get_length \<lparr>STRING_MIN_LEN = 1, STRING_MAX_LEN = 50, DATE_DEFAULT_FOMAT = [], TIME_DEFAULT_FOMAT = []\<rparr>
     (JObj [(''min'', JNum 10), (''max'', JNum 40), (''len'', JNum 33)]) (sconst 0) = (Inr (JNum 33), sconst 0)"
  by (rule get_length_len_priority)
     (simp_all add: string_len_def opt_int_def js_default_def)

text \<open>C20: a bound of \<open>0\<close> counts as absent (\<open>!max\<close> and \<open>!min\<close> hold for
  \<open>0\<close>): \<open>_getLength({min: 0, max: 0})\<close> is \<open>_getLength({})\<close>, a length drawn over the
  default bounds, not the length \<open>0\<close>.\<close>

theorem get_length_zero_bounds:
  "get_length c (JObj [(''min'', JNum 0), (''max'', JNum 0)]) rng = get_length c (JObj []) rng"
proof -
  have "string_len (js_get (JObj [(''min'', JNum 0), (''max'', JNum 0)])) = None"
    and "string_len (js_get (JObj [])) = None"
    using parse_int_to_string_other [of JUndef] by (simp_all add: string_len_def opt_int_def js_default_def)
  moreover have "string_min c (js_get (JObj [(''min'', JNum 0), (''max'', JNum 0)])) = string_min c (js_get (JObj []))"
    by (simp add: string_min_def opt_int_def js_default_def clamp_min_def)
  moreover have "string_max c (js_get (JObj [(''min'', JNum 0), (''max'', JNum 0)])) = string_max c (js_get (JObj []))"
    by (simp add: string_max_def opt_int_def js_default_def clamp_max_def)
  ultimately show ?thesis by (simp add: get_length_obj)
qed

text \<open>\<open>_getLength\<close> stays within \<open>[STRING_MIN_LEN, STRING_MAX_LEN]\<close> when the
  sanitised \<open>min\<close> does not exceed the sanitised \<open>max\<close>; it then never throws and
  consumes at most one draw.\<close>

lemma get_length_bounded:
  assumes "draws_ok rng" and "opt \<noteq> JUndef" and "opt \<noteq> JNull"
    and "string_min c (js_get opt) \<le> string_max c (js_get opt)"
  shows "\<exists>k rng'. get_length c opt rng = (Inr (JNum k), rng')
                 \<and> STRING_MIN_LEN c \<le> k \<and> k \<le> STRING_MAX_LEN c"
proof (cases "len_ok c (string_len (js_get opt))")
  case True
  then show ?thesis using assms(2,3)
    by (auto simp: get_length_obj len_ok_def split: option.splits)
next
  case False
  obtain k where "integer (JObj [(''min'', JNum (string_min c (js_get opt))),
                                 (''max'', JNum (string_max c (js_get opt)))]) rng = (Inr (JNum k), stl rng)"
      and "string_min c (js_get opt) \<le> k" and "k \<le> string_max c (js_get opt)"
    using integer_in_range [OF assms(1,4)] by blast
  with False assms(2,3) show ?thesis
    using string_min_ge [of c "js_get opt"] string_max_le [of c "js_get opt"]
    by (auto simp: get_length_obj)
qed

subsection \<open>string\<close>

text \<open>The loop appends \<open>n\<close> characters of the alphabet, one draw each.\<close>

lemma string_loop_chars:
  assumes "draws_ok rng"
  shows "\<exists>s. string_loop n res rng = (Inr (res @ s), sdrop n rng) \<and> length s = n \<and> set s \<subseteq> set allChar"
  using assms
proof (induction n arbitrary: res rng)
  case 0
  then show ?case by simp
next
  case (Suc n)
  obtain ch where ch: "char_gen rng = (Inr [ch], stl rng)" and "ch \<in> set allChar"
    using char_gen_alphabet [OF Suc.prems] by blast
  moreover obtain s where "string_loop n (res @ [ch]) (stl rng) = (Inr (res @ [ch] @ s), sdrop n (stl rng))"
      and "length s = n" and "set s \<subseteq> set allChar"
    using Suc.IH [where res = "res @ [ch]" and rng = "stl rng"] draws_ok_stl [OF Suc.prems] by auto
  ultimately show ?case by (intro exI [of _ "ch # s"]) simp
qed

text \<open>\<open>_getLength\<close> of \<open>opt || {}\<close> always returns a number: \<open>string\<close> never throws.\<close>

lemma get_length_or_num:
  assumes "draws_ok rng"
  shows "\<exists>k rng'. get_length c (js_or opt (JObj [])) rng = (Inr (JNum k), rng')"
proof (cases "len_ok c (string_len (js_get (js_or opt (JObj []))))")
  case True
  then show ?thesis by (simp add: get_length_def)
next
  case False
  then show ?thesis by (simp add: get_length_def integer_nums)
qed

lemma string_gen_from_length:
  assumes "draws_ok rng" and "get_length c (js_or opt (JObj [])) rng = (Inr (JNum k), rng1)"
  shows "\<exists>s. string_gen c opt rng = (Inr (JStr s), sdrop (nat k) rng1) \<and> length s = nat k
             \<and> set s \<subseteq> set allChar"
proof -
  have "draws_ok rng1"
    using assms by (cases "len_ok c (string_len (js_get (js_or opt (JObj []))))")
      (auto simp: get_length_def integer_nums draws_ok_stl)
  then obtain s where "string_loop (nat k) [] rng1 = (Inr s, sdrop (nat k) rng1)"
      and "length s = nat k" and "set s \<subseteq> set allChar"
    using string_loop_chars [of rng1 "nat k" "[]"] by auto
  with assms(2) show ?thesis by (simp add: string_gen_def)
qed

text \<open>C14: \<open>string(opt)\<close> never throws; when the sanitised \<open>min\<close> does not exceed the
  sanitised \<open>max\<close> it returns a string of the alphabet whose length lies within
  \<open>[STRING_MIN_LEN, STRING_MAX_LEN]\<close>.\<close>

theorem string_gen_in_limits:
  assumes "consts_ok c" and "draws_ok rng"
    and "string_min c (js_get (js_or opt (JObj []))) \<le> string_max c (js_get (js_or opt (JObj [])))"
  shows "\<exists>s rng'. string_gen c opt rng = (Inr (JStr s), rng')
                  \<and> STRING_MIN_LEN c \<le> int (length s) \<and> int (length s) \<le> STRING_MAX_LEN c
                  \<and> set s \<subseteq> set allChar"
proof -
  have ne: "js_or opt (JObj []) \<noteq> JUndef" "js_or opt (JObj []) \<noteq> JNull"
    by (cases opt; simp add: js_or_def)+
  obtain k rng1 where k: "get_length c (js_or opt (JObj [])) rng = (Inr (JNum k), rng1)"
      and "STRING_MIN_LEN c \<le> k" and "k \<le> STRING_MAX_LEN c"
    using get_length_bounded [OF assms(2) ne assms(3)] by blast
  moreover obtain s where "string_gen c opt rng = (Inr (JStr s), sdrop (nat k) rng1)"
      and "length s = nat k" and "set s \<subseteq> set allChar"
    using string_gen_from_length [OF assms(2) k] by blast
  moreover have "0 \<le> k" using assms(1) \<open>STRING_MIN_LEN c \<le> k\<close> by (simp add: consts_ok_def)
  ultimately show ?thesis by auto
qed

theorem string_gen_in_limits_witness:
  "\<exists>s rng'. string_gen \<lparr>STRING_MIN_LEN = 1, STRING_MAX_LEN = 50, DATE_DEFAULT_FOMAT = [], TIME_DEFAULT_FOMAT = []\<rparr>
       (JObj [(''min'', JNum 10), (''max'', JNum 40)]) (sconst 0) = (Inr (JStr s), rng')
     \<and> 1 \<le> int (length s) \<and> int (length s) \<le> 50 \<and> set s \<subseteq> set allChar"
proof -
  have "\<exists>s rng'. string_gen \<lparr>STRING_MIN_LEN = 1, STRING_MAX_LEN = 50, DATE_DEFAULT_FOMAT = [], TIME_DEFAULT_FOMAT = []\<rparr>
       (JObj [(''min'', JNum 10), (''max'', JNum 40)]) (sconst 0) = (Inr (JStr s), rng')
     \<and> STRING_MIN_LEN \<lparr>STRING_MIN_LEN = 1, STRING_MAX_LEN = 50, DATE_DEFAULT_FOMAT = [], TIME_DEFAULT_FOMAT = []\<rparr> \<le> int (length s)
     \<and> int (length s) \<le> STRING_MAX_LEN \<lparr>STRING_MIN_LEN = 1, STRING_MAX_LEN = 50, DATE_DEFAULT_FOMAT = [], TIME_DEFAULT_FOMAT = []\<rparr>
     \<and> set s \<subseteq> set allChar"
    by (rule string_gen_in_limits)
       (simp_all add: consts_ok_def string_min_def string_max_def opt_int_def js_default_def
         clamp_min_def clamp_max_def)
  then show ?thesis by simp
qed

text \<open>C15: the length bounds are not an invariant of \<open>string\<close>: a valid \<open>min\<close> above
  \<open>STRING_MAX_LEN\<close> is kept (only values below \<open>STRING_MIN_LEN\<close> are clamped), and
  \<open>integer\<close> then draws between the two bounds, so the string can be longer than
  \<open>STRING_MAX_LEN\<close>.\<close>

theorem string_gen_exceeds_max:
  assumes "consts_ok c" and "draws_ok rng"
  shows "\<exists>s rng'. string_gen c (JObj [(''min'', JNum (STRING_MAX_LEN c + 1))]) (0 ## rng) = (Inr (JStr s), rng')
                  \<and> STRING_MAX_LEN c < int (length s)"
proof -
  let ?o = "JObj [(''min'', JNum (STRING_MAX_LEN c + 1))]"
  have len: "string_len (js_get ?o) = None"
    using parse_int_to_string_other [of JUndef] by (simp add: string_len_def opt_int_def js_default_def)
  have mn: "string_min c (js_get ?o) = STRING_MAX_LEN c + 1"
    using assms(1) by (simp add: string_min_def opt_int_def js_default_def clamp_min_def consts_ok_def)
  have mx: "string_max c (js_get ?o) = STRING_MAX_LEN c"
    by (simp add: string_max_def opt_int_def js_default_def clamp_max_def)
  have k: "get_length c (js_or ?o (JObj [])) (0 ## rng) = (Inr (JNum (STRING_MAX_LEN c + 1)), rng)"
    using len mn mx js_round_of_int [of "STRING_MAX_LEN c + 1"]
    by (simp add: get_length_def js_destructure_def len_ok_def integer_nums)
  obtain s where "string_gen c ?o (0 ## rng) = (Inr (JStr s), sdrop (nat (STRING_MAX_LEN c + 1)) rng)"
      and "length s = nat (STRING_MAX_LEN c + 1)"
    using string_gen_from_length [OF _ k] assms by auto
  moreover have "0 \<le> STRING_MAX_LEN c" using assms(1) by (simp add: consts_ok_def)
  ultimately show ?thesis by auto
qed

theorem string_gen_exceeds_max_witness:
  "\<exists>s rng'. string_gen \<lparr>STRING_MIN_LEN = 1, STRING_MAX_LEN = 50, DATE_DEFAULT_FOMAT = [], TIME_DEFAULT_FOMAT = []\<rparr>
       (JObj [(''min'', JNum 51)]) (0 ## sconst 0) = (Inr (JStr s), rng') \<and> 50 < int (length s)"
  using string_gen_exceeds_max [of "\<lparr>STRING_MIN_LEN = 1, STRING_MAX_LEN = 50, DATE_DEFAULT_FOMAT = [], TIME_DEFAULT_FOMAT = []\<rparr>" "sconst 0"]
  by (simp add: consts_ok_def)

subsection \<open>boolean, randomDate, date and time\<close>

text \<open>C17: \<open>string(opt)\<close> never throws, whatever the option value (\<open>undefined\<close>,
  \<open>null\<close>, a primitive, or an object with any \<open>min\<close>, \<open>max\<close>, \<open>len\<close>): it returns a
  string of the alphabet and consumes a finite number of draws.\<close>

theorem string_gen_never_throws:
  assumes "draws_ok rng"
  shows "\<exists>s n. string_gen c opt rng = (Inr (JStr s), sdrop n rng) \<and> set s \<subseteq> set allChar"
proof (cases "len_ok c (string_len (js_get (js_or opt (JObj []))))")
  case True
  then obtain l where "get_length c (js_or opt (JObj [])) rng = (Inr (JNum l), rng)"
    by (simp add: get_length_def)
  from string_gen_from_length [OF assms this] show ?thesis by blast
next
  case False
  then obtain k where "get_length c (js_or opt (JObj [])) rng = (Inr (JNum k), stl rng)"
    by (simp add: get_length_def integer_nums)
  from string_gen_from_length [OF assms this] obtain s where
    "string_gen c opt rng = (Inr (JStr s), sdrop (Suc (nat k)) rng)" and "set s \<subseteq> set allChar"
    by auto
  then show ?thesis by blast
qed

theorem string_gen_never_throws_witness:
  "\<exists>s n. string_gen \<lparr>STRING_MIN_LEN = 1, STRING_MAX_LEN = 50, DATE_DEFAULT_FOMAT = [], TIME_DEFAULT_FOMAT = []\<rparr>
       (JObj [(''min'', JNull), (''len'', JStr ''x'')]) (sconst 0) = (Inr (JStr s), sdrop n (sconst 0))
     \<and> set s \<subseteq> set allChar"
  by (rule string_gen_never_throws) simp

text \<open>C19: a valid \<open>min\<close> within the limits is honoured as a floor: \<open>string({min: m})\<close>
  returns a string of length between \<open>m\<close> and \<open>STRING_MAX_LEN\<close>.\<close>

theorem string_gen_min_floor:
  assumes "draws_ok rng" and "STRING_MIN_LEN c \<le> m" and "m \<le> STRING_MAX_LEN c" and "0 < m"
  shows "\<exists>s rng'. string_gen c (JObj [(''min'', JNum m)]) rng = (Inr (JStr s), rng')
                  \<and> m \<le> int (length s) \<and> int (length s) \<le> STRING_MAX_LEN c"
proof -
  let ?o = "JObj [(''min'', JNum m)]"
  have len: "string_len (js_get ?o) = None"
    using parse_int_to_string_other [of JUndef] by (simp add: string_len_def opt_int_def js_default_def)
  have mn: "string_min c (js_get ?o) = m"
    using assms(2,4) by (simp add: string_min_def opt_int_def js_default_def clamp_min_def)
  have mx: "string_max c (js_get ?o) = STRING_MAX_LEN c"
    by (simp add: string_max_def opt_int_def js_default_def clamp_max_def)
  obtain k where k: "integer (JObj [(''min'', JNum m), (''max'', JNum (STRING_MAX_LEN c))]) rng
                       = (Inr (JNum k), stl rng)" and "m \<le> k" "k \<le> STRING_MAX_LEN c"
    using integer_in_range [OF assms(1,3)] by blast
  then have "get_length c (js_or ?o (JObj [])) rng = (Inr (JNum k), stl rng)"
    using len mn mx by (simp add: get_length_obj len_ok_def)
  from string_gen_from_length [OF assms(1) this] obtain s where
    "string_gen c ?o rng = (Inr (JStr s), sdrop (nat k) (stl rng))" and "length s = nat k" by blast
  with \<open>m \<le> k\<close> \<open>k \<le> STRING_MAX_LEN c\<close> assms(4) show ?thesis by auto
qed

theorem string_gen_min_floor_witness:
  "\<exists>s rng'. string_gen \<lparr>STRING_MIN_LEN = 1, STRING_MAX_LEN = 50, DATE_DEFAULT_FOMAT = [], TIME_DEFAULT_FOMAT = []\<rparr>
       (JObj [(''min'', JNum 5)]) (sconst 0) = (Inr (JStr s), rng') \<and> 5 \<le> int (length s) \<and> int (length s) \<le> 50"
  using string_gen_min_floor [of "sconst 0" "\<lparr>STRING_MIN_LEN = 1, STRING_MAX_LEN = 50, DATE_DEFAULT_FOMAT = [], TIME_DEFAULT_FOMAT = []\<rparr>" 5]
  by simp

text \<open>C16: a \<open>max\<close> below \<open>STRING_MIN_LEN\<close> survives the sanitising (only values above
  \<open>STRING_MAX_LEN\<close>, \<open>0\<close> and non-integers are replaced), so \<open>string({max: -1})\<close>
  returns the empty string for some draws, shorter than \<open>STRING_MIN_LEN\<close>.\<close>

theorem string_gen_below_min:
  assumes "consts_ok c" and "1 \<le> STRING_MIN_LEN c"
  shows "\<exists>r. 0 \<le> r \<and> r < 1 \<and> string_gen c (JObj [(''max'', JNum (- 1))]) (r ## s) = (Inr (JStr []), s)"
proof -
  let ?o = "JObj [(''max'', JNum (- 1))]" and ?M = "STRING_MIN_LEN c"
  define r :: real where "r = (of_int ?M + 1 / 2) / (of_int ?M + 1)"
  have M: "(1::real) \<le> of_int ?M" using assms(2) by simp
  have r0: "0 \<le> r" and r1: "r < 1" using M by (simp_all add: r_def field_simps)
  have "r * of_int (- 1 - ?M) + of_int ?M = - 1 / 2"
    using M by (simp add: r_def field_simps)
  then have round0: "js_round (r * of_int (- 1 - ?M) + of_int ?M) = 0"
    by (simp add: js_round_def)
  have len: "string_len (js_get ?o) = None"
    using parse_int_to_string_other [of JUndef] by (simp add: string_len_def opt_int_def js_default_def)
  have mn: "string_min c (js_get ?o) = ?M"
    by (simp add: string_min_def opt_int_def js_default_def clamp_min_def)
  have mx: "string_max c (js_get ?o) = - 1"
    using assms(1) by (simp add: string_max_def opt_int_def js_default_def clamp_max_def consts_ok_def)
  have "get_length c (js_or ?o (JObj [])) (r ## s) = (Inr (JNum 0), s)"
    using len mn mx round0 by (simp add: get_length_obj len_ok_def integer_nums)
  then have "string_gen c ?o (r ## s) = (Inr (JStr []), s)"
    by (simp add: string_gen_def)
  with r0 r1 show ?thesis by blast
qed

theorem string_gen_below_min_witness:
  "\<exists>r. 0 \<le> r \<and> r < 1 \<and> string_gen \<lparr>STRING_MIN_LEN = 1, STRING_MAX_LEN = 50, DATE_DEFAULT_FOMAT = [], TIME_DEFAULT_FOMAT = []\<rparr>
       (JObj [(''max'', JNum (- 1))]) (r ## sconst 0) = (Inr (JStr []), sconst 0)"
  by (rule string_gen_below_min) (simp_all add: consts_ok_def)

text \<open>Every integer of \<open>[mn, mx]\<close> is the rounded draw of some value of \<open>[0, 1)\<close>.\<close>

lemma draw_hits:
  assumes "mn \<le> k" and "k \<le> mx"
  shows "\<exists>r::real. 0 \<le> r \<and> r < 1 \<and> js_round (r * of_int (mx - mn) + of_int mn) = k"
proof (cases "k = mn")
  case True
  then show ?thesis by (intro exI [of _ 0]) simp
next
  case False
  define d where "d = mx - mn"
  define r :: real where "r = (of_int (k - mn) - 1 / 4) / of_int d"
  have d: "1 \<le> d" and j: "1 \<le> k - mn" "k - mn \<le> d" using assms False by (simp_all add: d_def)
  then have dr: "(1::real) \<le> of_int d" "(1::real) \<le> of_int (k - mn)" "of_int (k - mn) \<le> (of_int d :: real)"
    by simp_all
  have "0 \<le> r" "r < 1" using dr by (simp_all add: r_def field_simps)
  moreover have "r * of_int (mx - mn) + of_int mn = of_int k - (1 / 4 :: real)"
    using dr by (simp add: r_def d_def field_simps)
  then have "js_round (r * of_int (mx - mn) + of_int mn) = k"
    by (simp add: js_round_def floor_eq_iff)
  ultimately show ?thesis by blast
qed

text \<open>The same with the draws \<open>Math.random()\<close> really returns, the multiples \<open>j / 2^52\<close>
  of \<open>[0, 1)\<close>, when the range spans at most \<open>2^32\<close> integers: the draws are then
  denser than the integers of the range.\<close>

lemma dyadic_draw_hits:
  assumes "mn \<le> k" and "k \<le> mx" and "mx - mn \<le> 2 ^ 32"
  shows "\<exists>j::nat. j < 2 ^ 52 \<and> js_round (real j / 2 ^ 52 * of_int (mx - mn) + of_int mn) = k"
proof (cases "k = mn")
  case True
  then show ?thesis by (intro exI [of _ 0]) simp
next
  case False
  define d where "d = mx - mn"
  define t where "t = k - mn"
  define N :: real where "N = 2 ^ 52"
  define y where "y = (of_int t - 1 / 2) * N / of_int d"
  define j where "j = nat \<lceil>y\<rceil>"
  have t: "1 \<le> t" "t \<le> d" and d: "d \<le> 2 ^ 32" using assms False by (simp_all add: t_def d_def)
  then have dr: "(1::real) \<le> of_int t" "of_int t \<le> (of_int d :: real)" "(of_int d :: real) \<le> 2 ^ 32"
    by simp_all
  have N: "0 < N" by (simp add: N_def)
  have "0 \<le> y" using dr N by (simp add: y_def)
  then have jr: "real j = of_int \<lceil>y\<rceil>" by (simp add: j_def)
  have lo: "y \<le> real j" unfolding jr by simp
  have hi: "real j < y + 1" unfolding jr using ceiling_correct [of y] by linarith
  have yd: "y * of_int d / N = of_int t - 1 / 2" using dr N by (simp add: y_def)
  have x_lo: "of_int t - 1 / 2 \<le> real j / N * of_int d"
    using mult_right_mono [OF lo, of "of_int d / N"] dr N yd by (simp add: field_simps)
  have "real j / N * of_int d < (y + 1) / N * of_int d"
    using hi dr N by (simp add: divide_strict_right_mono)
  also have "\<dots> = y * of_int d / N + of_int d / N" by (simp add: add_divide_distrib distrib_right)
  also have "\<dots> = of_int t - 1 / 2 + of_int d / N" by (simp only: yd)
  also have "\<dots> < of_int t + 1 / 2" using dr by (simp add: N_def)
  finally have x_hi: "real j / N * of_int d < of_int t + 1 / 2" .
  have "js_round (real j / N * of_int d + of_int mn) = k"
    using x_lo x_hi by (simp add: js_round_def floor_eq_iff t_def)
  moreover have "real j < N"
  proof -
    have "y \<le> N - N / (2 * of_int d)" using dr N by (simp add: y_def field_simps)
    moreover have "N / (2 * of_int d) \<ge> 1" using dr by (simp add: N_def field_simps)
    ultimately show ?thesis using hi by linarith
  qed
  then have "j < 2 ^ 52" by (simp add: N_def)
  ultimately show ?thesis unfolding N_def d_def by blast
qed
lemma boolean_draw: "boolean rng = (Inr (JBool (1 / 2 \<le> shd rng)), stl rng)"
  by (simp add: boolean_def math_random_def)

text \<open>\<open>randomDate()\<close> lies between the epoch and now and consumes one draw.\<close>

lemma random_date_in_range:
  assumes "draws_ok rng" and "0 \<le> nowT" and "nowT \<le> 8640000000000000"
  shows "\<exists>t. random_date nowT rng = (Some t, stl rng) \<and> 0 \<le> t \<and> t \<le> nowT"
proof -
  let ?x = "shd rng * of_int nowT :: real"
  have r: "0 \<le> shd rng" "shd rng < 1" using draws_ok_shd [OF assms(1)] by auto
  then have x0: "0 \<le> ?x" using assms(2) by simp
  have "?x \<le> of_int nowT" using r assms(2) by (simp add: mult_left_le_one_le)
  then have x1: "\<lfloor>?x\<rfloor> \<le> nowT" by (simp add: floor_le_iff)
  have "\<bar>?x\<bar> \<le> 8640000000000000"
    using x0 \<open>?x \<le> of_int nowT\<close> assms(3) by linarith
  with x0 x1 show ?thesis
    by (simp add: random_date_def js_time_clip_def math_random_def)
qed

text \<open>Destructuring \<open>undefined\<close> throws before any draw.\<close>

lemma date_undefined [simp]: "date e JUndef rng = (Inl TypeError, rng)"
  and time_undefined [simp]: "time e JUndef rng = (Inl TypeError, rng)"
  by (simp_all add: date_def time_def js_destructure_def)

text \<open>A primitive argument has no \<open>format\<close>: the default format is used.\<close>

lemma date_primitive:
  assumes "opt \<noteq> JUndef" and "opt \<noteq> JNull" and "\<And>ps. opt \<noteq> JObj ps"
  shows "date e opt rng =
           (Inr (JStr (dayjs_format e (JStr (DATE_DEFAULT_FOMAT (cfg e))) (fst (random_date (now e) rng)))),
            snd (random_date (now e) rng))"
  using assms by (cases opt) (auto simp: date_def js_destructure_def js_default_def split: prod.splits)

lemma time_primitive:
  assumes "opt \<noteq> JUndef" and "opt \<noteq> JNull" and "\<And>ps. opt \<noteq> JObj ps"
  shows "time e opt rng =
           (Inr (JStr (dayjs_format e (JStr (TIME_DEFAULT_FOMAT (cfg e))) (fst (random_date (now e) rng)))),
            snd (random_date (now e) rng))"
  using assms by (cases opt) (auto simp: time_def js_destructure_def js_default_def split: prod.splits)

subsection \<open>Generators called with a primitive argument\<close>

lemma js_get_or_primitive_fun:
  "(\<And>ps. opt \<noteq> JObj ps) \<Longrightarrow> js_get (js_or opt (JObj [])) = (\<lambda>k. JUndef)"
  by (rule ext) (rule js_get_or_primitive)

text \<open>A primitive option has no \<open>min\<close>, \<open>max\<close> or \<open>len\<close>: \<open>string\<close> behaves as \<open>string()\<close>.\<close>

lemma string_gen_primitive_eq:
  assumes "\<And>ps. opt \<noteq> JObj ps"
  shows "string_gen c opt rng = string_gen c JUndef rng"
proof -
  have "js_or opt (JObj []) \<noteq> JUndef \<and> js_or opt (JObj []) \<noteq> JNull"
       "js_or JUndef (JObj []) \<noteq> JUndef \<and> js_or JUndef (JObj []) \<noteq> JNull"
    by (cases opt; simp add: js_or_def)+
  moreover have "js_get (js_or JUndef (JObj [])) = (\<lambda>k. JUndef)"
    by (rule js_get_or_primitive_fun) simp
  ultimately show ?thesis
    using js_get_or_primitive_fun [OF assms]
    by (simp add: string_gen_def get_length_def js_destructure_def)
qed

lemma string_gen_undefined_bounded:
  assumes "consts_ok c" and "draws_ok rng"
  shows "\<exists>s rng'. string_gen c JUndef rng = (Inr (JStr s), rng')
                  \<and> STRING_MIN_LEN c \<le> int (length s) \<and> int (length s) \<le> STRING_MAX_LEN c"
proof -
  have g: "js_get (js_or JUndef (JObj [])) = (\<lambda>k. JUndef)" by (rule js_get_or_primitive_fun) simp
  have ne: "js_or JUndef (JObj []) \<noteq> JUndef" "js_or JUndef (JObj []) \<noteq> JNull"
    by (simp_all add: js_or_def)
  have "string_min c (js_get (js_or JUndef (JObj []))) \<le> string_max c (js_get (js_or JUndef (JObj [])))"
    using assms(1) g by (simp add: consts_ok_def)
  then obtain k rng1 where k: "get_length c (js_or JUndef (JObj [])) rng = (Inr (JNum k), rng1)"
      and "STRING_MIN_LEN c \<le> k" and "k \<le> STRING_MAX_LEN c"
    using get_length_bounded [OF assms(2) ne] by blast
  moreover obtain s where "string_gen c JUndef rng = (Inr (JStr s), sdrop (nat k) rng1)"
      and "length s = nat k"
    using string_gen_from_length [OF assms(2) k] by blast
  moreover have "0 \<le> k" using assms(1) \<open>STRING_MIN_LEN c \<le> k\<close> by (simp add: consts_ok_def)
  ultimately show ?thesis by auto
qed

lemma string_gen_no_error:
  assumes "draws_ok rng"
  shows "\<exists>s rng'. string_gen c opt rng = (Inr (JStr s), rng')"
proof -
  obtain k rng1 where "get_length c (js_or opt (JObj [])) rng = (Inr (JNum k), rng1)"
    using get_length_or_num [OF assms] by blast
  from string_gen_from_length [OF assms this] show ?thesis by blast
qed

lemma integer_primitive_no_error:
  "(\<And>ps. opt \<noteq> JObj ps) \<Longrightarrow> \<exists>v. integer opt rng = (Inr v, stl rng)"
  by (simp add: integer_primitive integer_nums)

subsection \<open>Draw counts\<close>

text \<open>\<open>integer\<close>, \<open>_getLength\<close>, \<open>date\<close> and \<open>time\<close> read at most one draw.\<close>

lemma integer_rest: "snd (integer opt s) = s \<or> snd (integer opt s) = stl s"
  by (auto simp: integer_def math_random_def split: sum.splits prod.splits)

lemma get_length_rest: "snd (get_length c opt s) = s \<or> snd (get_length c opt s) = stl s"
  using integer_rest [of _ s] by (auto simp: get_length_def split: sum.splits)

lemma date_rest: "snd (date e opt s) = s \<or> snd (date e opt s) = stl s"
  and time_rest: "snd (time e opt s) = s \<or> snd (time e opt s) = stl s"
  by (auto simp: date_def time_def random_date_def math_random_def split: sum.splits prod.splits)

text \<open>\<open>string()\<close> reads at most \<open>STRING_MAX_LEN + 1\<close> draws: one for the length, one
  per character.\<close>

lemma string_gen_undefined_draws:
  assumes "consts_ok c" and "draws_ok rng"
  shows "\<exists>n \<le> nat (STRING_MAX_LEN c) + 1. snd (string_gen c JUndef rng) = sdrop n rng"
proof -
  have g: "js_get (js_or JUndef (JObj [])) = (\<lambda>k. JUndef)" by (rule js_get_or_primitive_fun) simp
  have ne: "js_or JUndef (JObj []) \<noteq> JUndef" "js_or JUndef (JObj []) \<noteq> JNull"
    by (simp_all add: js_or_def)
  have "string_min c (js_get (js_or JUndef (JObj []))) \<le> string_max c (js_get (js_or JUndef (JObj [])))"
    using assms(1) g by (simp add: consts_ok_def)
  then obtain k rng1 where k: "get_length c (js_or JUndef (JObj [])) rng = (Inr (JNum k), rng1)"
      and "k \<le> STRING_MAX_LEN c"
    using get_length_bounded [OF assms(2) ne] by blast
  moreover obtain s where str: "string_gen c JUndef rng = (Inr (JStr s), sdrop (nat k) rng1)"
    using string_gen_from_length [OF assms(2) k] by blast
  moreover have "rng1 = rng \<or> rng1 = stl rng"
    using get_length_rest [of c "js_or JUndef (JObj [])" rng] k by auto
  ultimately show ?thesis
  proof (elim disjE)
    assume "rng1 = rng"
    with str \<open>k \<le> STRING_MAX_LEN c\<close> show ?thesis by (intro exI [of _ "nat k"]) auto
  next
    assume "rng1 = stl rng"
    then have "sdrop (nat k) rng1 = sdrop (nat k + 1) rng" by (simp add: sdrop_add [symmetric])
    with str \<open>k \<le> STRING_MAX_LEN c\<close> show ?thesis by (intro exI [of _ "nat k + 1"]) auto
  qed
qed

text \<open>C8: the draw accounting of the generators, for every option value: \<open>string\<close>
  reads one draw per character of its result plus at most one for the length;
  \<open>integer\<close>, \<open>date\<close> and \<open>time\<close> read exactly one draw when they return and none when
  they throw; \<open>boolean\<close> reads exactly one.\<close>

theorem generators_draw_accounting:
  assumes "draws_ok rng"
  shows "(\<exists>s k. string_gen c opt rng = (Inr (JStr s), sdrop (k + length s) rng) \<and> k \<le> 1)
       \<and> snd (integer opt rng) = (if isl (fst (integer opt rng)) then rng else stl rng)
       \<and> snd (date e opt rng) = (if isl (fst (date e opt rng)) then rng else stl rng)
       \<and> snd (time e opt rng) = (if isl (fst (time e opt rng)) then rng else stl rng)
       \<and> snd (boolean rng) = stl rng"
proof (intro conjI)
  obtain k0 rng1 where k0: "get_length c (js_or opt (JObj [])) rng = (Inr (JNum k0), rng1)"
    using get_length_or_num [OF assms] by blast
  then obtain s where str: "string_gen c opt rng = (Inr (JStr s), sdrop (nat k0) rng1)"
      and len: "length s = nat k0"
    using string_gen_from_length [OF assms] by blast
  have "rng1 = sdrop 0 rng \<or> rng1 = sdrop 1 rng"
    using get_length_rest [of c "js_or opt (JObj [])" rng] k0 by auto
  then obtain k :: nat where "k \<le> 1" and "rng1 = sdrop k rng" by blast
  moreover have "sdrop (nat k0) (sdrop k rng) = sdrop (k + length s) rng"
    by (simp add: sdrop_add len)
  ultimately show "\<exists>s k. string_gen c opt rng = (Inr (JStr s), sdrop (k + length s) rng) \<and> k \<le> 1"
    using str by metis
next
  show "snd (integer opt rng) = (if isl (fst (integer opt rng)) then rng else stl rng)"
    by (auto simp: integer_def math_random_def split: sum.splits prod.splits)
next
  show "snd (date e opt rng) = (if isl (fst (date e opt rng)) then rng else stl rng)"
    and "snd (time e opt rng) = (if isl (fst (time e opt rng)) then rng else stl rng)"
    by (auto simp: date_def time_def random_date_def math_random_def split: sum.splits prod.splits)
next
  show "snd (boolean rng) = stl rng" by (simp add: boolean_draw)
qed

theorem generators_draw_accounting_witness:
  "(\<exists>s k. string_gen \<lparr>STRING_MIN_LEN = 1, STRING_MAX_LEN = 50, DATE_DEFAULT_FOMAT = [], TIME_DEFAULT_FOMAT = []\<rparr>
            JUndef (sconst 0) = (Inr (JStr s), sdrop (k + length s) (sconst 0)) \<and> k \<le> 1)
   \<and> snd (integer JUndef (sconst 0)) = (if isl (fst (integer JUndef (sconst 0))) then sconst 0 else stl (sconst 0))
   \<and> snd (date \<lparr>cfg = \<lparr>STRING_MIN_LEN = 1, STRING_MAX_LEN = 50, DATE_DEFAULT_FOMAT = [], TIME_DEFAULT_FOMAT = []\<rparr>,
                now = 0, dayjs_format = (\<lambda>f t. [])\<rparr> JUndef (sconst 0))
     = (if isl (fst (date \<lparr>cfg = \<lparr>STRING_MIN_LEN = 1, STRING_MAX_LEN = 50, DATE_DEFAULT_FOMAT = [], TIME_DEFAULT_FOMAT = []\<rparr>,
                now = 0, dayjs_format = (\<lambda>f t. [])\<rparr> JUndef (sconst 0))) then sconst 0 else stl (sconst 0))
   \<and> snd (time \<lparr>cfg = \<lparr>STRING_MIN_LEN = 1, STRING_MAX_LEN = 50, DATE_DEFAULT_FOMAT = [], TIME_DEFAULT_FOMAT = []\<rparr>,
                now = 0, dayjs_format = (\<lambda>f t. [])\<rparr> JUndef (sconst 0))
     = (if isl (fst (time \<lparr>cfg = \<lparr>STRING_MIN_LEN = 1, STRING_MAX_LEN = 50, DATE_DEFAULT_FOMAT = [], TIME_DEFAULT_FOMAT = []\<rparr>,
                now = 0, dayjs_format = (\<lambda>f t. [])\<rparr> JUndef (sconst 0))) then sconst 0 else stl (sconst 0))
   \<and> snd (boolean (sconst 0)) = stl (sconst 0)"
  by (rule generators_draw_accounting) simp

text \<open>C22: no length of the range is excluded: for every \<open>k\<close> in
  \<open>[STRING_MIN_LEN, STRING_MAX_LEN]\<close> some first draw makes \<open>string()\<close> return a string
  of length \<open>k\<close>; it then consumes exactly \<open>k\<close> further draws.\<close>

theorem string_gen_every_length:
  assumes "consts_ok c" and "draws_ok s" and "STRING_MIN_LEN c \<le> k" and "k \<le> STRING_MAX_LEN c"
  shows "\<exists>r. 0 \<le> r \<and> r < 1 \<and>
           (\<exists>str. string_gen c JUndef (r ## s) = (Inr (JStr str), sdrop (nat k) s) \<and> int (length str) = k)"
proof -
  obtain r :: real where r: "0 \<le> r" "r < 1"
    and k: "js_round (r * of_int (STRING_MAX_LEN c - STRING_MIN_LEN c) + of_int (STRING_MIN_LEN c)) = k"
    using draw_hits [OF assms(3,4)] by blast
  have g: "js_get (js_or JUndef (JObj [])) = (\<lambda>k. JUndef)" by (rule js_get_or_primitive_fun) simp
  have "get_length c (js_or JUndef (JObj [])) (r ## s) = (Inr (JNum k), s)"
    using g k by (simp add: get_length_def len_ok_def integer_nums)
  moreover have "draws_ok (r ## s)" using r assms(2) by simp
  ultimately obtain str where "string_gen c JUndef (r ## s) = (Inr (JStr str), sdrop (nat k) s)"
      and "length str = nat k"
    using string_gen_from_length by blast
  moreover have "0 \<le> k" using assms(1,3) by (simp add: consts_ok_def)
  ultimately show ?thesis using r by auto
qed

theorem string_gen_every_length_witness:
  "\<exists>r. 0 \<le> r \<and> r < 1 \<and>
     (\<exists>str. string_gen \<lparr>STRING_MIN_LEN = 1, STRING_MAX_LEN = 50, DATE_DEFAULT_FOMAT = [], TIME_DEFAULT_FOMAT = []\<rparr>
              JUndef (r ## sconst 0) = (Inr (JStr str), sdrop (nat 50) (sconst 0)) \<and> int (length str) = 50)"
  by (rule string_gen_every_length) (simp_all add: consts_ok_def)

text \<open>C36: \<open>date\<close> and \<open>time\<close> render with the \<open>format\<close> option when it is given and
  with the default format when the object has none; a \<open>null\<close> option throws a
  \<open>TypeError\<close> before any draw.\<close>

theorem date_time_format_option:
  "date e (JObj [(''format'', JStr f)]) rng
     = (Inr (JStr (dayjs_format e (JStr f) (fst (random_date (now e) rng)))), snd (random_date (now e) rng))
   \<and> time e (JObj [(''format'', JStr f)]) rng
     = (Inr (JStr (dayjs_format e (JStr f) (fst (random_date (now e) rng)))), snd (random_date (now e) rng))
   \<and> date e (JObj []) rng
     = (Inr (JStr (dayjs_format e (JStr (DATE_DEFAULT_FOMAT (cfg e))) (fst (random_date (now e) rng)))),
        snd (random_date (now e) rng))
   \<and> time e (JObj []) rng
     = (Inr (JStr (dayjs_format e (JStr (TIME_DEFAULT_FOMAT (cfg e))) (fst (random_date (now e) rng)))),
        snd (random_date (now e) rng))
   \<and> date e JNull rng = (Inl TypeError, rng) \<and> time e JNull rng = (Inl TypeError, rng)"
  by (simp add: date_def time_def js_destructure_def js_default_def split: prod.splits)

text \<open>C27: a string bound is read by \<open>parseInt\<close> as its leading integer: with
  \<open>min = "12abc"\<close> and \<open>max = "15px"\<close> the draw lies in \<open>[12, 15]\<close>; the trailing text
  is ignored rather than making the bound invalid.\<close>

theorem integer_string_bounds:
  assumes "draws_ok rng" and "mn \<le> mx"
    and "r1 = [] \<or> \<not> is_digit (hd r1)" and "r2 = [] \<or> \<not> is_digit (hd r2)"
  shows "\<exists>k. integer (JObj [(''min'', JStr (int_to_dec mn @ r1)), (''max'', JStr (int_to_dec mx @ r2))]) rng
             = (Inr (JNum k), stl rng) \<and> mn \<le> k \<and> k \<le> mx"
proof -
  have "integer (JObj [(''min'', JStr (int_to_dec mn @ r1)), (''max'', JStr (int_to_dec mx @ r2))]) rng
        = integer (JObj [(''min'', JNum mn), (''max'', JNum mx)]) rng"
    using parse_int_prefix [OF assms(3)] parse_int_prefix [OF assms(4)]
    by (simp add: integer_def bound_value_def js_value_simps)
  with integer_in_range [OF assms(1,2)] show ?thesis by simp
qed

theorem integer_string_bounds_witness:
  "\<exists>k. integer (JObj [(''min'', JStr (int_to_dec 12 @ ''abc'')), (''max'', JStr (int_to_dec 15 @ ''px''))]) (sconst 0)
       = (Inr (JNum k), stl (sconst 0)) \<and> 12 \<le> k \<and> k \<le> (15::int)"
  by (rule integer_string_bounds) (simp_all add: is_digit_def)

text \<open>C26: no value of the range is starved: for \<open>min \<le> max\<close> with at most \<open>2^32\<close>
  integers between them, every integer of \<open>[min, max]\<close> is the result of
  \<open>integer({min, max})\<close> for some draw \<open>j / 2^52\<close> of the 52-bit values \<open>Math.random()\<close>
  returns, the end points included.\<close>

theorem integer_every_value:
  assumes "mn \<le> k" and "k \<le> mx" and "mx - mn \<le> 2 ^ 32"
  shows "\<exists>j::nat. j < 2 ^ 52
           \<and> integer (JObj [(''min'', JNum mn), (''max'', JNum mx)]) ((real j / 2 ^ 52) ## s) = (Inr (JNum k), s)"
  using dyadic_draw_hits [OF assms] by (simp add: integer_nums)

theorem integer_every_value_witness:
  "\<exists>j::nat. j < 2 ^ 52
     \<and> integer (JObj [(''min'', JNum 1), (''max'', JNum 100)]) ((real j / 2 ^ 52) ## sconst 0) = (Inr (JNum 100), sconst 0)"
  by (rule integer_every_value) simp_all

end
