(* ===== verification/Resolver.thy ===== *)
theory Resolver
  imports Generators
begin

text \<open>
  The placeholder resolver of \<^verbatim>\<open>src/hl/src/parser.ts\<close> (function \<open>parser\<close>): the
  match of \<^verbatim>\<open>/@(\w+)\((.*)\)/\<close> (unanchored, leftmost, \<open>.*\<close> greedy and stopping at
  a line terminator), the argument list (\<open>split(',')\<close>, \<open>filter(Boolean)\<close>, digits to
  numbers), the lookup of the opcode in the built-in generators and then in the
  external \<open>use\<close> registry, and the call \<open>func?.(...args)\<close>. The built-in table (the
  module \<^verbatim>\<open>./random\<close>, not among the sources) is modelled from the spec as the five
  generators \<^verbatim>\<open>basic.ts\<close> exports. The lemmas: the matcher agrees with the pattern
  (sound, complete, and the roundtrip with printing a directive), the argument parser
  inverts printing an argument list, and the resolver's outcome on each branch.
\<close>

section \<open>The directive pattern\<close>

text \<open>\<^verbatim>\<open>\w\<close>: \<open>[A-Za-z0-9_]\<close>.\<close>

definition is_word_char :: "char \<Rightarrow> bool" where
  "is_word_char c \<longleftrightarrow>
     (let n = (of_char c :: nat)
      in (65 \<le> n \<and> n \<le> 90) \<or> (97 \<le> n \<and> n \<le> 122) \<or> (48 \<le> n \<and> n \<le> 57) \<or> n = 95)"

text \<open>The characters \<^verbatim>\<open>.\<close> does not match: line feed and carriage return.\<close>

definition is_line_term :: "char \<Rightarrow> bool" where
  "is_line_term c \<longleftrightarrow> c = CHR ''\<newline>'' \<or> c = CHR 0x0D"

text \<open>
  \<^verbatim>\<open>(.*)\)\<close> on the text after \<^verbatim>\<open>(\<close>: the greedy \<^verbatim>\<open>.*\<close> runs to the end of the
  line and backtracks to the last \<^verbatim>\<open>)\<close> of it; the capture is what precedes it.
\<close>

definition last_paren_prefix :: "string \<Rightarrow> string option" where
  "last_paren_prefix seg =
     (case dropWhile (\<lambda>x. x \<noteq> CHR '')'') (rev seg) of [] \<Rightarrow> None | _ # r \<Rightarrow> Some (rev r))"

text \<open>
  The match at a position holding \<^verbatim>\<open>@\<close> (\<open>cs\<close> is the text after it): \<^verbatim>\<open>\w+\<close> is
  greedy and no shorter run can be followed by \<^verbatim>\<open>(\<close>, so the opcode is the maximal
  word run.
\<close>

definition match_at :: "string \<Rightarrow> (string \<times> string) option" where
  "match_at cs =
     (let op = takeWhile is_word_char cs; rest = dropWhile is_word_char cs
      in if op = [] then None
         else (case rest of
                 c # r \<Rightarrow>
                   if c = CHR ''('' then map_option (\<lambda>a. (op, a)) (last_paren_prefix (takeWhile (\<lambda>x. \<not> is_line_term x) r))
                   else None
               | [] \<Rightarrow> None))"

text \<open>\<open>value.match(regex)\<close>: the first position where the pattern matches.\<close>

fun match_directive :: "string \<Rightarrow> (string \<times> string) option" where
  "match_directive [] = None"
| "match_directive (c # cs) =
     (case (if c = CHR ''@'' then match_at cs else None) of
        Some m \<Rightarrow> Some m
      | None \<Rightarrow> match_directive cs)"

section \<open>Arguments\<close>

text \<open>\<open>arg.match(/^\d+$/) ? Number(arg) : arg\<close>.\<close>

definition arg_of_token :: "string \<Rightarrow> jsval" where
  "arg_of_token t = (if t \<noteq> [] \<and> list_all is_digit t then JNum (int (digits_value t)) else JStr t)"

definition parse_args :: "string \<Rightarrow> jsval list" where
  "parse_args blob = map arg_of_token (filter (\<lambda>t. t \<noteq> []) (js_split CHR '','' blob))"

section \<open>Generator lookup and the resolver\<close>

type_synonym registry = "string \<Rightarrow> generator option"

text \<open>
  The built-in table \<open>random\<close> (the module \<^verbatim>\<open>./random\<close>, which re-exports the
  generators of \<^verbatim>\<open>basic.ts\<close>), as the resolver calls its entries: with the
  arguments spread, so that a generator receives the first one as its options.
\<close>

definition builtin :: "runtime \<Rightarrow> registry" where
  "builtin e name = map_option (\<lambda>f args. f (js_arg args)) (basic_exports e name)"

text \<open>
  \<open>random[opt] || use(opt)\<close>, then \<open>func?.(...args)\<close>: \<open>undefined\<close> when neither
  registry has the opcode.
\<close>

definition parser :: "runtime \<Rightarrow> registry \<Rightarrow> string \<Rightarrow> rng \<Rightarrow> (js_error + jsval) \<times> rng" where
  "parser e use value rng =
     (case match_directive value of
        None \<Rightarrow> (Inr (JStr value), rng)
      | Some (opt, blob) \<Rightarrow>
          (let args = parse_args blob;
               func = (case builtin e opt of Some f \<Rightarrow> Some f | None \<Rightarrow> use opt)
           in case func of None \<Rightarrow> (Inr JUndef, rng) | Some f \<Rightarrow> f args rng))"

section \<open>Specification of the pattern\<close>

text \<open>
  A directive \<open>@op(a)\<close> of the pattern: a non-empty word opcode and an argument text
  without line terminators.
\<close>

definition directive_parts :: "string \<Rightarrow> string \<Rightarrow> bool" where
  "directive_parts op a \<longleftrightarrow> op \<noteq> [] \<and> list_all is_word_char op \<and> \<not> list_ex is_line_term a"

text \<open>Printing a directive and an argument list, the inverse of the resolver's parsing.\<close>

definition directive :: "string \<Rightarrow> string \<Rightarrow> string" where
  "directive op a = CHR ''@'' # op @ CHR ''('' # a @ [CHR '')'']"

definition print_args :: "jsval list \<Rightarrow> string" where
  "print_args args = js_join CHR '','' (map js_to_string args)"

text \<open>
  The arguments the directive syntax can carry: non-negative integers, and non-empty
  strings that are not all digits and hold no comma and no line terminator.
\<close>

fun printable_arg :: "jsval \<Rightarrow> bool" where
  "printable_arg (JNum n) = (0 \<le> n)"
| "printable_arg (JStr t) =
     (t \<noteq> [] \<and> \<not> list_all is_digit t \<and> CHR '','' \<notin> set t \<and> \<not> list_ex is_line_term t)"
| "printable_arg v = False"

section \<open>Lemmas\<close>

lemmas builtin_simps = builtin_def basic_exports_def

subsection \<open>Character classes\<close>

lemma special_chars [simp]:
  "\<not> is_word_char CHR ''(''" "\<not> is_word_char CHR ''@''"
  "\<not> is_line_term CHR '')''" "\<not> is_digit CHR '',''"
  by (simp_all add: is_word_char_def is_line_term_def is_digit_def)

subsection \<open>The capture of \<^verbatim>\<open>(.*)\)\<close>\<close>

lemma last_paren_prefix_Some:
  assumes "last_paren_prefix seg = Some a"
  shows "\<exists>ys. seg = a @ CHR '')'' # ys \<and> CHR '')'' \<notin> set ys"
proof -
  obtain x r where d: "dropWhile (\<lambda>x. x \<noteq> CHR '')'') (rev seg) = x # r" and a: "a = rev r"
    using assms by (auto simp: last_paren_prefix_def split: list.splits)
  have "x = CHR '')''" using d hd_dropWhile [of "\<lambda>x. x \<noteq> CHR '')''" "rev seg"] by fastforce
  have "rev seg = takeWhile (\<lambda>x. x \<noteq> CHR '')'') (rev seg) @ x # r"
    using d takeWhile_dropWhile_id [of "\<lambda>x. x \<noteq> CHR '')''" "rev seg"] by simp
  then have "seg = a @ x # rev (takeWhile (\<lambda>x. x \<noteq> CHR '')'') (rev seg))"
    using a by (metis rev_append rev_rev_ident rev.simps(2) append_assoc append_Cons append_Nil)
  moreover have "CHR '')'' \<notin> set (rev (takeWhile (\<lambda>x. x \<noteq> CHR '')'') (rev seg)))"
    by (auto dest: set_takeWhileD)
  ultimately show ?thesis using \<open>x = CHR '')''\<close> by blast
qed

lemma last_paren_prefix_ne: "CHR '')'' \<in> set seg \<Longrightarrow> last_paren_prefix seg \<noteq> None"
  by (auto simp: last_paren_prefix_def dropWhile_eq_Nil_conv split: list.splits)

lemma last_paren_prefix_snoc [simp]: "last_paren_prefix (a @ [CHR '')'']) = Some a"
  by (simp add: last_paren_prefix_def)

lemma last_paren_prefix_app:
  assumes "CHR '')'' \<notin> set ys"
  shows "last_paren_prefix (a @ CHR '')'' # ys) = Some a"
proof -
  have "dropWhile (\<lambda>x. x \<noteq> CHR '')'') (rev ys @ CHR '')'' # rev a) = CHR '')'' # rev a"
    using assms by (subst dropWhile_append2) auto
  then show ?thesis by (simp add: last_paren_prefix_def)
qed

subsection \<open>The match at an \<^verbatim>\<open>@\<close>\<close>

lemma match_at_Some:
  assumes "match_at cs = Some (op, a)"
  shows "\<exists>post. cs = op @ CHR ''('' # a @ CHR '')'' # post \<and> directive_parts op a
           \<and> CHR '')'' \<notin> set (takeWhile (\<lambda>x. \<not> is_line_term x) post)"
proof -
  let ?op = "takeWhile is_word_char cs"
  obtain r where rest: "dropWhile is_word_char cs = CHR ''('' # r" and ne: "?op \<noteq> []"
      and op: "op = ?op"
      and lp: "last_paren_prefix (takeWhile (\<lambda>x. \<not> is_line_term x) r) = Some a"
    using assms by (auto simp: match_at_def Let_def split: list.splits if_splits)
  obtain ys where seg: "takeWhile (\<lambda>x. \<not> is_line_term x) r = a @ CHR '')'' # ys"
      and ys: "CHR '')'' \<notin> set ys"
    using last_paren_prefix_Some [OF lp] by blast
  define post where "post = ys @ dropWhile (\<lambda>x. \<not> is_line_term x) r"
  have "r = a @ CHR '')'' # post"
    using takeWhile_dropWhile_id [of "\<lambda>x. \<not> is_line_term x" r] seg by (simp add: post_def)
  moreover have "cs = op @ CHR ''('' # r"
    using takeWhile_dropWhile_id [of is_word_char cs] rest op by simp
  ultimately have cs: "cs = op @ CHR ''('' # a @ CHR '')'' # post" by simp
  have "\<not> list_ex is_line_term a"
  proof -
    have "\<forall>x \<in> set (takeWhile (\<lambda>x. \<not> is_line_term x) r). \<not> is_line_term x"
      by (auto dest: set_takeWhileD)
    then show ?thesis using seg by (auto simp: list_ex_iff)
  qed
  moreover have "list_all is_word_char op"
    using op by (auto simp: list_all_iff dest: set_takeWhileD)
  moreover have "op \<noteq> []" using ne op by simp
  moreover have "takeWhile (\<lambda>x. \<not> is_line_term x) post = ys"
  proof -
    have "\<forall>x \<in> set (takeWhile (\<lambda>x. \<not> is_line_term x) r). \<not> is_line_term x"
      by (auto dest: set_takeWhileD)
    then have "\<forall>x \<in> set ys. \<not> is_line_term x" using seg by auto
    moreover have "takeWhile (\<lambda>x. \<not> is_line_term x) (dropWhile (\<lambda>x. \<not> is_line_term x) r) = []"
      by (induction r) auto
    ultimately show ?thesis by (simp add: post_def takeWhile_append2)
  qed
  ultimately show ?thesis using cs ys unfolding directive_parts_def by blast
qed

lemma takeWhile_word_op:
  "list_all is_word_char op \<Longrightarrow> takeWhile is_word_char (op @ CHR ''('' # r) = op"
  "list_all is_word_char op \<Longrightarrow> dropWhile is_word_char (op @ CHR ''('' # r) = CHR ''('' # r"
  by (simp_all add: list_all_iff takeWhile_append2 dropWhile_append2)

lemma match_at_directive:
  assumes "directive_parts op a"
  shows "match_at (op @ CHR ''('' # a @ CHR '')'' # post) \<noteq> None"
proof -
  have lt: "\<forall>x \<in> set a. \<not> is_line_term x" using assms by (auto simp: directive_parts_def list_ex_iff)
  have "takeWhile (\<lambda>x. \<not> is_line_term x) (a @ CHR '')'' # post)
          = a @ CHR '')'' # takeWhile (\<lambda>x. \<not> is_line_term x) post"
    using lt by (simp add: takeWhile_append2)
  then have "last_paren_prefix (takeWhile (\<lambda>x. \<not> is_line_term x) (a @ CHR '')'' # post)) \<noteq> None"
    by (simp add: last_paren_prefix_ne)
  with assms show ?thesis
    by (auto simp: match_at_def Let_def takeWhile_word_op directive_parts_def)
qed

lemma match_at_print:
  assumes "directive_parts op a"
  shows "match_at (op @ CHR ''('' # a @ [CHR '')'']) = Some (op, a)"
proof -
  have "takeWhile (\<lambda>x. \<not> is_line_term x) (a @ [CHR '')'']) = a @ [CHR '')'']"
    using assms by (auto simp: directive_parts_def list_ex_iff takeWhile_append2)
  with assms show ?thesis
    by (auto simp: match_at_def Let_def takeWhile_word_op directive_parts_def)
qed

subsection \<open>The leftmost match\<close>

text \<open>A match is an occurrence of the pattern, at the leftmost \<^verbatim>\<open>@\<close> where one begins.\<close>

lemma match_directive_leftmost:
  assumes "match_directive s = Some (op, a)"
  shows "\<exists>pre post. s = pre @ CHR ''@'' # op @ CHR ''('' # a @ CHR '')'' # post \<and> directive_parts op a
           \<and> CHR '')'' \<notin> set (takeWhile (\<lambda>x. \<not> is_line_term x) post)
           \<and> (\<forall>p q. length p < length pre \<longrightarrow> s = p @ CHR ''@'' # q \<longrightarrow> match_at q = None)"
  using assms
proof (induction s rule: match_directive.induct)
  case 1
  then show ?case by simp
next
  case (2 c cs)
  show ?case
  proof (cases "c = CHR ''@'' \<and> match_at cs \<noteq> None")
    case True
    with "2.prems" have "match_at cs = Some (op, a)" by auto
    then obtain post where "cs = op @ CHR ''('' # a @ CHR '')'' # post" and "directive_parts op a"
        and "CHR '')'' \<notin> set (takeWhile (\<lambda>x. \<not> is_line_term x) post)"
      using match_at_Some by blast
    with True show ?thesis by (intro exI [of _ "[]"] exI [of _ post]) auto
  next
    case False
    with "2.prems" have "match_directive cs = Some (op, a)"
      by (cases "match_at cs") (auto split: if_splits)
    moreover have "(if c = CHR ''@'' then match_at cs else None) = None"
      using False by (cases "match_at cs") auto
    ultimately obtain pre post where greedy: "CHR '')'' \<notin> set (takeWhile (\<lambda>x. \<not> is_line_term x) post)" and cs: "cs = pre @ CHR ''@'' # op @ CHR ''('' # a @ CHR '')'' # post"
        and parts: "directive_parts op a"
        and left: "\<forall>p q. length p < length pre \<longrightarrow> cs = p @ CHR ''@'' # q \<longrightarrow> match_at q = None"
      using "2.IH" by blast
    have "\<forall>p q. length p < length (c # pre) \<longrightarrow> c # cs = p @ CHR ''@'' # q \<longrightarrow> match_at q = None"
    proof (intro allI impI)
      fix p q
      assume len: "length p < length (c # pre)" and eq: "c # cs = p @ CHR ''@'' # q"
      show "match_at q = None"
      proof (cases p)
        case Nil
        with eq False show ?thesis by (cases "match_at q") auto
      next
        case (Cons c' p')
        with eq len left show ?thesis by auto
      qed
    qed
    with cs parts greedy show ?thesis by (intro exI [of _ "c # pre"] exI [of _ post]) auto
  qed
qed

lemma match_directive_Some:
  "match_directive s = Some (op, a) \<Longrightarrow>
     \<exists>pre post. s = pre @ CHR ''@'' # op @ CHR ''('' # a @ CHR '')'' # post \<and> directive_parts op a"
  by (blast dest: match_directive_leftmost)

text \<open>C10: every match of the resolver is an occurrence of the pattern: the input is
  \<open>pre @op(a) post\<close> with a non-empty word opcode and an argument text on one line;
  the capture is greedy (no \<^verbatim>\<open>)\<close> follows on the same line) and the match starts at
  the leftmost \<^verbatim>\<open>@\<close> that begins an occurrence.\<close>

theorem match_directive_sound:
  assumes "match_directive s = Some (op, a)"
  shows "\<exists>pre post. s = pre @ CHR ''@'' # op @ CHR ''('' # a @ CHR '')'' # post \<and> directive_parts op a
           \<and> CHR '')'' \<notin> set (takeWhile (\<lambda>x. \<not> is_line_term x) post)
           \<and> (\<forall>p q. length p < length pre \<longrightarrow> s = p @ CHR ''@'' # q \<longrightarrow> match_at q = None)"
  using assms match_directive_leftmost by blast

theorem match_directive_sound_witness:
  "\<exists>pre post. ''x @foo(1,2,bar) y'' = pre @ CHR ''@'' # ''foo'' @ CHR ''('' # ''1,2,bar'' @ CHR '')'' # post
     \<and> directive_parts ''foo'' ''1,2,bar''
     \<and> CHR '')'' \<notin> set (takeWhile (\<lambda>x. \<not> is_line_term x) post)
     \<and> (\<forall>p q. length p < length pre \<longrightarrow> ''x @foo(1,2,bar) y'' = p @ CHR ''@'' # q \<longrightarrow> match_at q = None)"
  by (rule match_directive_sound)
     (simp add: match_at_def last_paren_prefix_def is_word_char_def is_line_term_def)

text \<open>Every occurrence of the pattern is found: the resolver matches some directive.\<close>

lemma match_directive_intro:
  assumes "s = pre @ CHR ''@'' # op @ CHR ''('' # a @ CHR '')'' # post" and "directive_parts op a"
  shows "match_directive s \<noteq> None"
  using assms(1)
proof (induction pre arbitrary: s)
  case Nil
  then show ?case using match_at_directive [OF assms(2), of post] by (auto split: option.splits)
next
  case (Cons c pre)
  then show ?case by (auto split: option.splits if_splits)
qed

text \<open>A directive in context: text before it without \<^verbatim>\<open>@\<close> is skipped, and text after it
  without \<^verbatim>\<open>)\<close> does not extend the capture.\<close>

lemma match_at_context:
  assumes "directive_parts op a" and "CHR '')'' \<notin> set post"
  shows "match_at (op @ CHR ''('' # a @ CHR '')'' # post) = Some (op, a)"
proof -
  have "takeWhile (\<lambda>x. \<not> is_line_term x) (a @ CHR '')'' # post)
          = a @ CHR '')'' # takeWhile (\<lambda>x. \<not> is_line_term x) post"
    using assms(1) by (auto simp: directive_parts_def list_ex_iff takeWhile_append2)
  moreover have "CHR '')'' \<notin> set (takeWhile (\<lambda>x. \<not> is_line_term x) post)"
    using assms(2) by (auto dest: set_takeWhileD)
  ultimately show ?thesis using assms(1)
    by (simp add: match_at_def Let_def takeWhile_word_op directive_parts_def last_paren_prefix_app)
qed

lemma match_directive_skip: "CHR ''@'' \<notin> set pre \<Longrightarrow> match_directive (pre @ s) = match_directive s"
  by (induction pre) auto

lemma match_directive_directive:
  "directive_parts op a \<Longrightarrow> match_directive (directive op a) = Some (op, a)"
  by (simp add: directive_def match_at_print)

lemma no_at_no_directive:
  "CHR ''@'' \<notin> set s \<Longrightarrow> \<not> (\<exists>pre op a post. s = pre @ CHR ''@'' # op @ CHR ''('' # a @ CHR '')'' # post)"
  by auto

text \<open>C11: the resolver finds no directive exactly when the pattern occurs nowhere in the
  input.\<close>

theorem match_directive_none_iff:
  "match_directive s = None \<longleftrightarrow>
     \<not> (\<exists>pre op a post. s = pre @ CHR ''@'' # op @ CHR ''('' # a @ CHR '')'' # post \<and> directive_parts op a)"
proof
  assume "match_directive s = None"
  then show "\<not> (\<exists>pre op a post. s = pre @ CHR ''@'' # op @ CHR ''('' # a @ CHR '')'' # post \<and> directive_parts op a)"
    using match_directive_intro by blast
next
  assume none: "\<not> (\<exists>pre op a post. s = pre @ CHR ''@'' # op @ CHR ''('' # a @ CHR '')'' # post \<and> directive_parts op a)"
  show "match_directive s = None"
  proof (rule ccontr)
    assume "match_directive s \<noteq> None"
    then obtain op a where "match_directive s = Some (op, a)" by auto
    from match_directive_Some [OF this] show False using none by blast
  qed
qed

theorem match_directive_none_iff_witness:
  "match_directive ''a(b) c@d'' = None"
  using match_directive_none_iff [of "''a(b) c@d''"] no_at_no_directive
  by (simp add: match_at_def is_word_char_def)

subsection \<open>Arguments\<close>

lemma printable_arg_token: "printable_arg v \<Longrightarrow> arg_of_token (js_to_string v) = v"
proof (cases v)
  case (JNum n)
  moreover assume "printable_arg v"
  ultimately have "js_to_string v = dec_string (nat n)" and "0 \<le> n"
    by (simp_all add: int_to_dec_def)
  moreover have "list_all is_digit (dec_string (nat n))"
    using dec_string_digits by (simp add: list_all_iff)
  ultimately show ?thesis using JNum by (simp add: arg_of_token_def)
qed (auto simp: arg_of_token_def)

lemma printable_arg_nosep: "printable_arg v \<Longrightarrow> CHR '','' \<notin> set (js_to_string v)"
proof (cases v)
  case (JNum n)
  moreover assume "printable_arg v"
  ultimately show ?thesis using dec_string_digits [of "nat n"]
    by (auto simp: int_to_dec_def)
qed auto

lemma printable_arg_no_lt: "printable_arg v \<Longrightarrow> \<not> list_ex is_line_term (js_to_string v)"
proof (cases v)
  case (JNum n)
  moreover assume "printable_arg v"
  ultimately show ?thesis using dec_string_digits [of "nat n"]
    by (auto simp: int_to_dec_def list_ex_iff is_line_term_def is_digit_def)
qed auto

lemma set_js_join: "set (js_join d ts) \<subseteq> insert d (\<Union>t \<in> set ts. set t)"
  by (induction d ts rule: js_join.induct) auto

lemma printable_arg_ne: "printable_arg v \<Longrightarrow> js_to_string v \<noteq> []"
  by (cases v) (auto simp: int_to_dec_def)

lemma parse_print_args:
  assumes "list_all printable_arg args"
  shows "parse_args (print_args args) = args"
proof (cases "args = []")
  case True
  then show ?thesis by (simp add: parse_args_def print_args_def)
next
  case False
  have "js_split CHR '','' (js_join CHR '','' (map js_to_string args)) = map js_to_string args"
    using False assms by (intro js_split_join) (auto simp: list_all_iff printable_arg_nosep)
  moreover have "filter (\<lambda>t. t \<noteq> []) (map js_to_string args) = map js_to_string args"
    using assms by (auto simp: list_all_iff filter_id_conv printable_arg_ne)
  moreover have "map arg_of_token (map js_to_string args) = args"
    using assms by (induction args) (simp_all add: printable_arg_token)
  ultimately show ?thesis by (simp add: parse_args_def print_args_def)
qed

text \<open>C12: printing an opcode and an argument list as \<open>@op(a1,...,an)\<close> and resolving it
  gives back the opcode and the arguments: the directive syntax roundtrips.\<close>

theorem directive_roundtrip:
  assumes "op \<noteq> []" and "list_all is_word_char op" and "list_all printable_arg args"
  shows "map_option (\<lambda>(o', a). (o', parse_args a)) (match_directive (directive op (print_args args)))
           = Some (op, args)"
proof -
  have "\<not> list_ex is_line_term (print_args args)"
  proof -
    have "\<forall>v \<in> set args. \<not> list_ex is_line_term (js_to_string v)"
      using assms(3) by (simp add: list_all_iff printable_arg_no_lt)
    moreover have "\<not> is_line_term CHR '',''" by (simp add: is_line_term_def)
    ultimately show ?thesis
      using set_js_join [of "CHR '',''" "map js_to_string args"]
      by (fastforce simp: print_args_def list_ex_iff)
  qed
  then show ?thesis
    using assms by (simp add: match_directive_directive directive_parts_def parse_print_args)
qed

theorem directive_roundtrip_witness:
  "map_option (\<lambda>(o', a). (o', parse_args a))
     (match_directive (directive ''foo'' (print_args [JNum 12, JStr ''bar'']))) = Some (''foo'', [JNum 12, JStr ''bar''])"
  by (rule directive_roundtrip)
     (simp_all add: is_word_char_def is_digit_def is_line_term_def)

lemma parse_args_values: "v \<in> set (parse_args a) \<Longrightarrow> (\<exists>n. v = JNum n) \<or> (\<exists>t. v = JStr t)"
  by (auto simp: parse_args_def arg_of_token_def)

text \<open>C13: the argument list of a matched directive is well-formed: every argument is a
  non-negative integer (an all-digit token) or a non-empty string that is not all
  digits and holds no comma and no line terminator.\<close>

theorem parse_args_printable:
  assumes "\<not> list_ex is_line_term a"
  shows "list_all printable_arg (parse_args a)"
proof -
  have "printable_arg (arg_of_token t)" if t: "t \<in> set (js_split CHR '','' a)" "t \<noteq> []" for t
  proof -
    have "CHR '','' \<notin> set t" using js_split_no_sep [OF t(1)] .
    moreover have "\<not> list_ex is_line_term t"
      using js_split_subset [OF t(1)] assms by (auto simp: list_ex_iff)
    ultimately show ?thesis using t(2) by (simp add: arg_of_token_def)
  qed
  then show ?thesis by (auto simp: parse_args_def list_all_iff)
qed

theorem parse_args_printable_witness:
  "list_all printable_arg (parse_args ''10,,abc,007'')"
  by (rule parse_args_printable) (simp add: is_line_term_def)

text \<open>The first argument the resolver passes is a number, a string or \<open>undefined\<close>.\<close>

lemma js_arg_parse_args:
  "js_arg (parse_args a) \<noteq> JNull"
  "js_arg (parse_args a) \<noteq> JObj ps"
  "js_arg (parse_args a) = JUndef \<longleftrightarrow> parse_args a = []"
proof -
  have "\<forall>v \<in> set (parse_args a). v \<noteq> JNull \<and> v \<noteq> JObj ps \<and> v \<noteq> JUndef"
    using parse_args_values [of _ a] by fastforce
  then show "js_arg (parse_args a) \<noteq> JNull" "js_arg (parse_args a) \<noteq> JObj ps"
      "js_arg (parse_args a) = JUndef \<longleftrightarrow> parse_args a = []"
    by (auto simp: js_arg_def split: list.splits)
qed

end
