(* ===== verification/Resolver_Spec.thy ===== *)
theory Resolver_Spec
  imports Resolver
begin

text \<open>
  The resolver as its specification describes it (the two-tier lookup of its design
  notes): extract the opcode and the argument tokens, classify each token into the
  tagged union \<open>Number | Text\<close> by the all-digits rule, look the opcode up in the
  built-in table and then in the fallback registry, and either return the input
  (\<open>Literal\<close>), nothing (\<open>Absent\<close>) or the call of the generator found (\<open>Call\<close>).
  Its matcher is the backtracking search of \<open>RegExpBuiltinExec\<close> (positions left to
  right, the lengths of \<^verbatim>\<open>\w+\<close> and \<^verbatim>\<open>.*\<close> from the longest down), written
  with indices and independent of the model's scanner, and its tokeniser a direct
  split-and-drop-empties. The main theorem is that \<open>parser\<close>
  refines this resolver: running its outcome gives exactly what the code returns.
\<close>

section \<open>Reference definitions\<close>

text \<open>
  The reference semantics of \<^verbatim>\<open>/@(\w+)\((.*)\)/\<close> as the backtracking engine of
  \<open>RegExpBuiltinExec\<close> runs it on the text \<open>cs\<close> after an \<^verbatim>\<open>@\<close>, index by
  index: \<^verbatim>\<open>\w+\<close> tries the lengths \<open>n\<close> from the longest down to 1, each followed by
  \<^verbatim>\<open>(\<close>; for the first \<open>n\<close> whose continuation succeeds, the greedy \<^verbatim>\<open>.*\<close> tries
  the lengths \<open>m\<close> of a run without line terminators from the longest down to 0, each
  followed by \<^verbatim>\<open>)\<close>. The first success is the match.
\<close>

definition paren_close :: "string \<Rightarrow> nat option" where
  "paren_close r = find (\<lambda>m. \<not> list_ex is_line_term (take m r) \<and> r ! m = CHR '')'') (rev [0..<length r])"

definition match_here :: "string \<Rightarrow> (string \<times> string) option" where
  "match_here cs =
     (case find (\<lambda>n. list_all is_word_char (take n cs) \<and> cs ! n = CHR ''('' \<and> paren_close (drop (Suc n) cs) \<noteq> None)
                (rev [1..<length cs]) of
        None \<Rightarrow> None
      | Some n \<Rightarrow> map_option (\<lambda>m. (take n cs, take m (drop (Suc n) cs))) (paren_close (drop (Suc n) cs)))"

text \<open>\<open>value.match(regex)\<close> for a non-global regex: try the pattern at the positions
  \<open>0, 1, 2, ...\<close> in turn and return the first match.\<close>

definition match_directive_ref :: "string \<Rightarrow> (string \<times> string) option" where
  "match_directive_ref s =
     (case find (\<lambda>i. s ! i = CHR ''@'' \<and> match_here (drop (Suc i) s) \<noteq> None) [0..<length s] of
        None \<Rightarrow> None
      | Some i \<Rightarrow> match_here (drop (Suc i) s))"

text \<open>The non-empty comma-separated segments of the argument text, left to right.\<close>

function tokens :: "string \<Rightarrow> string list" where
  "tokens s =
     (if s = [] then []
      else (let w = takeWhile (\<lambda>c. c \<noteq> CHR '','') s
            in (if w = [] then [] else [w]) @ tokens (drop 1 (dropWhile (\<lambda>c. c \<noteq> CHR '','') s))))"
  by pat_completeness auto
termination
proof (relation "measure length")
  fix s :: string
  assume "s \<noteq> []"
  then show "(drop 1 (dropWhile (\<lambda>c. c \<noteq> CHR '','') s), s) \<in> measure length"
  proof -
    have "length (dropWhile (\<lambda>c. c \<noteq> CHR '','') s) \<le> length s" by (rule length_dropWhile_le)
    moreover have "0 < length s" using \<open>s \<noteq> []\<close> by simp
    ultimately show ?thesis by (simp only: in_measure length_drop)
  qed
qed simp

declare tokens.simps [simp del]

lemma tokens_Nil [simp]: "tokens [] = []"
  by (subst tokens.simps) simp

datatype token = Number nat | Text string

definition classify :: "string \<Rightarrow> token" where
  "classify t = (if list_all is_digit t then Number (digits_value t) else Text t)"

datatype 'g outcome = Literal string | Absent | Call 'g "token list"

text \<open>The two-tier lookup: the built-in table first, then the fallback.\<close>

definition lookup2 :: "(string \<Rightarrow> 'g option) \<Rightarrow> (string \<Rightarrow> 'g option) \<Rightarrow> string \<Rightarrow> 'g option" where
  "lookup2 primary fallback name =
     (case primary name of Some g \<Rightarrow> Some g | None \<Rightarrow> fallback name)"

definition resolve_spec :: "(string \<Rightarrow> 'g option) \<Rightarrow> string \<Rightarrow> 'g outcome" where
  "resolve_spec lookup s =
     (case match_directive_ref s of
        None \<Rightarrow> Literal s
      | Some (op, a) \<Rightarrow>
          (case lookup op of None \<Rightarrow> Absent | Some g \<Rightarrow> Call g (map classify (tokens a))))"

text \<open>The JavaScript value of a token, and the effect of an outcome.\<close>

fun token_val :: "token \<Rightarrow> jsval" where
  "token_val (Number n) = JNum (int n)"
| "token_val (Text t) = JStr t"

fun run_outcome :: "generator outcome \<Rightarrow> rng \<Rightarrow> (js_error + jsval) \<times> rng" where
  "run_outcome (Literal s) rng = (Inr (JStr s), rng)"
| "run_outcome Absent rng = (Inr JUndef, rng)"
| "run_outcome (Call g ts) rng = g (map token_val ts) rng"

section \<open>Lemmas\<close>

text \<open>The engine at one position finds the match of \<open>match_at\<close>: the word run
  before \<^verbatim>\<open>(\<close> can only be the maximal one, and the longest run before \<^verbatim>\<open>)\<close> ends at
  the last \<^verbatim>\<open>)\<close> of the line.\<close>

lemma paren_in_line:
  assumes "m < length r"
  shows "(\<not> list_ex is_line_term (take m r) \<and> r ! m = CHR '')'')
         \<longleftrightarrow> (m < length (takeWhile (\<lambda>x. \<not> is_line_term x) r) \<and> takeWhile (\<lambda>x. \<not> is_line_term x) r ! m = CHR '')'')"
    (is "?l \<longleftrightarrow> ?r")
proof
  assume l: ?l
  have r: "r = take m r @ r ! m # drop (Suc m) r" using assms by (rule id_take_nth_drop)
  have "takeWhile (\<lambda>x. \<not> is_line_term x) r
          = take m r @ CHR '')'' # takeWhile (\<lambda>x. \<not> is_line_term x) (drop (Suc m) r)"
    using l by (subst r) (simp add: takeWhile_append2 list_ex_iff)
  then show ?r using assms by (simp add: nth_append)
next
  assume r: ?r
  then have "take m r = take m (takeWhile (\<lambda>x. \<not> is_line_term x) r)" by (simp add: take_takeWhile_le)
  then have "\<not> list_ex is_line_term (take m r)"
    by (auto simp: list_ex_iff dest: in_set_takeD set_takeWhileD)
  moreover have "r ! m = CHR '')''" using r takeWhile_nth by metis
  ultimately show ?l ..
qed

lemma last_paren_prefix_find:
  "last_paren_prefix seg = map_option (\<lambda>m. take m seg) (find (\<lambda>m. seg ! m = CHR '')'') (rev [0..<length seg]))"
proof (cases "find (\<lambda>m. seg ! m = CHR '')'') (rev [0..<length seg])")
  case None
  then have "CHR '')'' \<notin> set seg" by (auto simp: find_None_iff in_set_conv_nth)
  then have "\<forall>x \<in> set (rev seg). x \<noteq> CHR '')''" by auto
  then have d: "dropWhile (\<lambda>x. x \<noteq> CHR '')'') (rev seg) = []" by (rule dropWhile_eq_Nil_conv [THEN iffD2])
  have "last_paren_prefix seg = None" unfolding last_paren_prefix_def d by simp
  with None show ?thesis by simp
next
  case (Some m)
  then have m: "m < length seg" "seg ! m = CHR '')''" and last: "\<forall>j. m < j \<and> j < length seg \<longrightarrow> seg ! j \<noteq> CHR '')''"
    by (simp_all add: find_rev_upt)
  have "CHR '')'' \<notin> set (drop (Suc m) seg)"
    using last by (auto simp: in_set_conv_nth)
  moreover have "seg = take m seg @ CHR '')'' # drop (Suc m) seg"
    using id_take_nth_drop [OF m(1)] m(2) by simp
  ultimately have "last_paren_prefix seg = Some (take m seg)"
    by (metis last_paren_prefix_app)
  with Some show ?thesis by simp
qed

lemma paren_close_last:
  "map_option (\<lambda>m. take m r) (paren_close r) = last_paren_prefix (takeWhile (\<lambda>x. \<not> is_line_term x) r)"
proof -
  let ?seg = "takeWhile (\<lambda>x. \<not> is_line_term x) r"
  have "paren_close r = find (\<lambda>m. m < length ?seg \<and> ?seg ! m = CHR '')'') (rev [0..<length r])"
    unfolding paren_close_def by (rule find_cong) (simp_all add: paren_in_line)
  also have "\<dots> = find (\<lambda>m. ?seg ! m = CHR '')'') (rev [0..<length ?seg])"
    by (rule find_rev_upt_restrict) (rule length_takeWhile_le)
  finally have pc: "paren_close r = find (\<lambda>m. ?seg ! m = CHR '')'') (rev [0..<length ?seg])" .
  have "map_option (\<lambda>m. take m r) (paren_close r) = map_option (\<lambda>m. take m ?seg) (paren_close r)"
  proof (cases "paren_close r")
    case (Some m)
    then have "m < length ?seg" unfolding pc by (simp add: find_rev_upt)
    with Some show ?thesis by (simp add: take_takeWhile_le)
  qed simp
  then show ?thesis by (simp add: pc last_paren_prefix_find)
qed

lemma word_paren_unique:
  assumes "list_all is_word_char (take n cs)" and "n < length cs" and "cs ! n = CHR ''(''"
  shows "n = length (takeWhile is_word_char cs)"
proof -
  have "cs = take n cs @ CHR ''('' # drop (Suc n) cs"
    using id_take_nth_drop [OF assms(2)] assms(3) by simp
  then have "takeWhile is_word_char cs = take n cs"
    using takeWhile_word_op(1) [OF assms(1)] by metis
  with assms(2) show ?thesis by simp
qed

lemma match_here_eq: "match_here cs = match_at cs"
proof -
  define k where "k = length (takeWhile is_word_char cs)"
  define r where "r = drop (Suc k) cs"
  let ?W = "\<lambda>n. list_all is_word_char (take n cs) \<and> cs ! n = CHR ''('' \<and> paren_close (drop (Suc n) cs) \<noteq> None"
  have op: "takeWhile is_word_char cs = take k cs" unfolding k_def by (rule takeWhile_eq_take)
  have dw: "dropWhile is_word_char cs = drop k cs" unfolding k_def by (rule dropWhile_eq_drop)
  have words: "list_all is_word_char (take k cs)"
    unfolding op [symmetric] by (auto simp: list_all_iff dest: set_takeWhileD)
  have find: "find ?W (rev [1..<length cs]) = (if 1 \<le> k \<and> k < length cs \<and> ?W k then Some k else None)"
    by (rule option_eqI) (auto simp: find_rev_upt k_def dest: word_paren_unique)
  show ?thesis
  proof (cases "1 \<le> k \<and> k < length cs \<and> cs ! k = CHR ''(''")
    case True
    then have rest: "dropWhile is_word_char cs = CHR ''('' # r"
      using Cons_nth_drop_Suc [of k cs] by (simp add: dw r_def)
    have at: "match_at cs = map_option (\<lambda>m. (take k cs, take m r)) (paren_close r)"
      using True by (cases "paren_close r") (auto simp: match_at_def Let_def op rest simp flip: paren_close_last)
    show ?thesis
      unfolding match_here_def find at using True words by (cases "paren_close r") (simp_all add: r_def)
  next
    case False
    then have "match_at cs = None"
    proof (cases "k = 0 \<or> k = length cs")
      case True
      then show ?thesis by (auto simp: match_at_def Let_def op dw)
    next
      case False
      have "k \<le> length cs" unfolding k_def by (rule length_takeWhile_le)
      with False have "k < length cs" "1 \<le> k" by auto
      with \<open>\<not> (1 \<le> k \<and> k < length cs \<and> cs ! k = CHR ''('')\<close> have "cs ! k \<noteq> CHR ''(''" by blast
      have "dropWhile is_word_char cs = cs ! k # drop (Suc k) cs"
        using \<open>k < length cs\<close> Cons_nth_drop_Suc [of k cs] by (simp add: dw)
      with \<open>cs ! k \<noteq> CHR ''(''\<close> show ?thesis by (simp add: match_at_def Let_def)
    qed
    moreover have "match_here cs = None" unfolding match_here_def find using False by auto
    ultimately show ?thesis by simp
  qed
qed

text \<open>The recursive scan of the model is the position-by-position search.\<close>

lemma match_directive_ref_eq: "match_directive s = match_directive_ref s"
proof (induction s)
  case Nil
  then show ?case by (simp add: match_directive_ref_def)
next
  case (Cons c cs)
  let ?P = "\<lambda>i. (c # cs) ! i = CHR ''@'' \<and> match_here (drop (Suc i) (c # cs)) \<noteq> None"
  let ?Q = "\<lambda>i. cs ! i = CHR ''@'' \<and> match_here (drop (Suc i) cs) \<noteq> None"
  have upt: "[0..<length (c # cs)] = 0 # map Suc [0..<length cs]"
    by (simp only: length_Cons map_Suc_upt upt_conv_Cons zero_less_Suc)
  have PQ: "?P \<circ> Suc = ?Q" by (rule ext) simp
  have f1: "find ?P [0..<length (c # cs)] = (if ?P 0 then Some 0 else find ?P (map Suc [0..<length cs]))"
    unfolding upt by (simp only: find.simps)
  have f2: "find ?P (map Suc [0..<length cs]) = map_option Suc (find ?Q [0..<length cs])"
    by (simp only: find_map_conv PQ)
  have "find ?P [0..<length (c # cs)]
        = (if ?P 0 then Some 0 else map_option Suc (find ?Q [0..<length cs]))"
    by (simp only: f1 f2)
  then have "match_directive_ref (c # cs)
        = (if c = CHR ''@'' \<and> match_here cs \<noteq> None then match_here cs else match_directive_ref cs)"
    by (auto simp: match_directive_ref_def split: option.splits)
  with Cons.IH show ?case by (auto simp: match_here_eq split: option.splits)
qed

text \<open>\<open>split(',').filter(Boolean)\<close> is the reference tokeniser.\<close>

lemma js_split_tokens: "filter (\<lambda>t. t \<noteq> []) (js_split CHR '','' s) = tokens s"
proof (induction s rule: tokens.induct)
  case (1 s)
  let ?w = "takeWhile (\<lambda>c. c \<noteq> CHR '','') s" and ?r = "dropWhile (\<lambda>c. c \<noteq> CHR '','') s"
  show ?case
  proof (cases "s = []")
    case True
    then show ?thesis by simp
  next
    case False
    have w: "CHR '','' \<notin> set ?w" by (auto dest: set_takeWhileD)
    have IH: "filter (\<lambda>t. t \<noteq> []) (js_split CHR '','' (drop 1 ?r)) = tokens (drop 1 ?r)"
      by (rule "1.IH" [OF False refl])
    show ?thesis
    proof (cases ?r)
      case Nil
      then have ws: "?w = s" using takeWhile_dropWhile_id [of "\<lambda>c. c \<noteq> CHR '','' " s] by (metis append_Nil2)
      then have "js_split CHR '','' s = [s]" using w js_split_nosep by metis
      with False Nil ws show ?thesis
        by (subst tokens.simps [of s]) (simp add: Let_def del: dropWhile_eq_Nil_conv takeWhile_eq_all_conv)
    next
      case (Cons x r)
      then have "x = CHR '',''" using hd_dropWhile [of "\<lambda>c. c \<noteq> CHR '','' " s] by fastforce
      then have s: "?w @ CHR '','' # r = s"
        using takeWhile_dropWhile_id [of "\<lambda>c. c \<noteq> CHR '','' " s] Cons by simp
      have "js_split CHR '','' s = ?w # js_split CHR '','' r"
        using js_split_sep [OF w, of r] unfolding s .
      with IH Cons False \<open>x = CHR '',''\<close> show ?thesis by (subst tokens.simps [of s]) (simp add: Let_def)
    qed
  qed
qed

lemma parse_args_tokens: "parse_args a = map (token_val \<circ> classify) (tokens a)"
proof -
  have "arg_of_token t = token_val (classify t)" if "t \<noteq> []" for t
    using that by (simp add: arg_of_token_def classify_def)
  moreover have "\<forall>t \<in> set (tokens a). t \<noteq> []"
    by (simp flip: js_split_tokens)
  moreover have "parse_args a = map arg_of_token (tokens a)"
    by (simp add: parse_args_def js_split_tokens)
  ultimately show ?thesis by simp
qed

section \<open>Refinement\<close>

text \<open>C7: \<open>parser\<close> refines the specified resolver: for every input, running the
  outcome of the two-tier resolver of the specification (reference matcher, reference
  tokeniser, tagged tokens, built-in table before the external registry) gives exactly
  the result and the remaining draws of the code.\<close>

theorem parser_refines_spec:
  "parser e use s rng = run_outcome (resolve_spec (lookup2 (builtin e) use) s) rng"
  by (simp add: parser_def resolve_spec_def lookup2_def parse_args_tokens
      flip: match_directive_ref_eq split: option.splits)

end
