(* ===== verification/Option_Types.thy ===== *)
theory Option_Types
  imports Resolver
begin

text \<open>
  The TypeScript interfaces of \<^verbatim>\<open>basic.ts\<close> for the options of the generators
  (\<open>integerOption\<close>, \<open>stringOption\<close>, \<open>formatOpt\<close>) as predicates on the values a
  generator can receive, with the optional parameters of \<open>integer(opt?)\<close> and
  \<open>string(opt?)\<close> and the required one of \<open>date(opt)\<close> and \<open>time(opt)\<close>. A property
  \<open>p?: T\<close> may be absent (\<open>undefined\<close>); \<open>number\<close> includes \<open>NaN\<close>; extra properties
  are allowed (structural typing). The lemmas show that every call the types admit
  returns without an error, and that the resolver, whose lookup line carries
  \<^verbatim>\<open>// @ts-ignore\<close>, passes \<open>date\<close> and \<open>time\<close> an ill-typed option in every call.
  A last group shows that numbers and their decimal strings, both admitted by
  \<open>number | string\<close>, are interchangeable in the options of \<open>integer\<close> and \<open>string\<close>.
\<close>

section \<open>The option interfaces\<close>

text \<open>\<open>p?: number\<close>.\<close>

fun is_number_or_undef :: "jsval \<Rightarrow> bool" where
  "is_number_or_undef JUndef = True"
| "is_number_or_undef (JNum n) = True"
| "is_number_or_undef JNaN = True"
| "is_number_or_undef v = False"

text \<open>\<open>p?: number | string\<close>.\<close>

fun is_num_str_or_undef :: "jsval \<Rightarrow> bool" where
  "is_num_str_or_undef (JStr s) = True"
| "is_num_str_or_undef v = is_number_or_undef v"

text \<open>\<open>format?: string\<close>.\<close>

fun is_format_value :: "jsval \<Rightarrow> bool" where
  "is_format_value JUndef = True"
| "is_format_value (JStr s) = True"
| "is_format_value v = False"

text \<open>\<open>opt?: integerOption\<close>, \<open>interface integerOption { min?: number; max?: number }\<close>.\<close>

fun is_integer_option :: "jsval \<Rightarrow> bool" where
  "is_integer_option JUndef = True"
| "is_integer_option (JObj ps) =
     (is_number_or_undef (js_get (JObj ps) ''min'') \<and> is_number_or_undef (js_get (JObj ps) ''max''))"
| "is_integer_option v = False"

text \<open>\<open>opt?: stringOption\<close>, with \<open>min?\<close>, \<open>max?\<close>, \<open>len?\<close> of type \<open>number | string\<close>.\<close>

fun is_string_option :: "jsval \<Rightarrow> bool" where
  "is_string_option JUndef = True"
| "is_string_option (JObj ps) =
     (is_num_str_or_undef (js_get (JObj ps) ''min'') \<and> is_num_str_or_undef (js_get (JObj ps) ''max'')
      \<and> is_num_str_or_undef (js_get (JObj ps) ''len''))"
| "is_string_option v = False"

text \<open>\<open>opt: formatOpt\<close> (a required parameter), \<open>interface formatOpt { format?: string }\<close>.\<close>

fun is_format_opt :: "jsval \<Rightarrow> bool" where
  "is_format_opt (JObj ps) = is_format_value (js_get (JObj ps) ''format'')"
| "is_format_opt v = False"

text \<open>Writing a number property of an option object as its decimal string
  (\<open>{len: 7}\<close> as \<open>{len: "7"}\<close>), as the types \<open>number | string\<close> allow.\<close>

fun num_to_str :: "jsval \<Rightarrow> jsval" where
  "num_to_str (JNum n) = JStr (int_to_dec n)"
| "num_to_str v = v"

definition stringify_props :: "(string \<times> jsval) list \<Rightarrow> (string \<times> jsval) list" where
  "stringify_props ps = map (\<lambda>(k, v). (k, num_to_str v)) ps"

section \<open>Lemmas\<close>

lemma bound_value_number:
  "is_number_or_undef v \<Longrightarrow> \<exists>m. bound_value v d = Inr m"
  by (cases v) (simp_all add: bound_value_def js_value_simps)

lemma integer_typed_no_error:
  assumes "is_integer_option opt"
  shows "\<exists>v. integer opt rng = (Inr v, stl rng)"
proof (cases opt)
  case (JObj ps)
  then obtain m1 m2 where "bound_value (js_get opt ''min'') MIN_SAFE_INTEGER = Inr m1"
      and "bound_value (js_get opt ''max'') MAX_SAFE_INTEGER = Inr m2"
    using assms bound_value_number by fastforce
  with JObj show ?thesis by (simp add: integer_def math_random_def js_destructure_def split: prod.splits)
qed (use assms in \<open>simp_all add: integer_primitive integer_nums\<close>)

lemma date_time_typed_no_error:
  assumes "is_format_opt opt"
  shows "\<exists>v. date e opt rng = (Inr v, snd (random_date (now e) rng))"
    and "\<exists>v. time e opt rng = (Inr v, snd (random_date (now e) rng))"
  using assms by (cases opt; simp add: date_def time_def js_destructure_def split: prod.splits)+

lemma js_arg_parse_args_cases:
  "js_arg (parse_args a) = JUndef \<or> (\<exists>n. js_arg (parse_args a) = JNum n) \<or> (\<exists>t. js_arg (parse_args a) = JStr t)"
  using parse_args_values [of "hd (parse_args a)" a]
  by (cases "parse_args a") (auto simp: js_arg_def)

text \<open>C31: every call the TypeScript types admit returns without an error:
  \<open>integer(opt?: integerOption)\<close> returns a number (possibly \<open>NaN\<close>) after one draw, and
  \<open>date(opt: formatOpt)\<close> and \<open>time(opt: formatOpt)\<close> return a formatted date after
  \<open>randomDate()\<close>.\<close>

theorem typed_calls_no_error:
  assumes "is_integer_option o1" and "is_format_opt o2"
  shows "(\<exists>v. integer o1 rng = (Inr v, stl rng))
       \<and> (\<exists>v. date e o2 rng = (Inr v, snd (random_date (now e) rng)))
       \<and> (\<exists>v. time e o2 rng = (Inr v, snd (random_date (now e) rng)))"
  using integer_typed_no_error [OF assms(1)] date_time_typed_no_error [OF assms(2)] by blast

theorem typed_calls_no_error_witness:
  "(\<exists>v. integer (JObj [(''min'', JNaN)]) (sconst 0) = (Inr v, stl (sconst 0)))
   \<and> (\<exists>v. date \<lparr>cfg = \<lparr>STRING_MIN_LEN = 1, STRING_MAX_LEN = 50, DATE_DEFAULT_FOMAT = [], TIME_DEFAULT_FOMAT = []\<rparr>,
                 now = 0, dayjs_format = (\<lambda>f t. [])\<rparr> (JObj []) (sconst 0)
           = (Inr v, snd (random_date 0 (sconst 0))))
   \<and> (\<exists>v. time \<lparr>cfg = \<lparr>STRING_MIN_LEN = 1, STRING_MAX_LEN = 50, DATE_DEFAULT_FOMAT = [], TIME_DEFAULT_FOMAT = []\<rparr>,
                 now = 0, dayjs_format = (\<lambda>f t. [])\<rparr> (JObj []) (sconst 0)
           = (Inr v, snd (random_date 0 (sconst 0))))"
  using typed_calls_no_error [of "JObj [(''min'', JNaN)]" "JObj []" "sconst 0"
      "\<lparr>cfg = \<lparr>STRING_MIN_LEN = 1, STRING_MAX_LEN = 50, DATE_DEFAULT_FOMAT = [], TIME_DEFAULT_FOMAT = []\<rparr>,
        now = 0, dayjs_format = (\<lambda>f t. [])\<rparr>"]
  by simp

text \<open>C32: the resolver's calls are outside these types (its lookup line carries
  \<^verbatim>\<open>// @ts-ignore\<close>): the first argument it passes is never a \<open>formatOpt\<close>, and it
  is an \<open>integerOption\<close> or a \<open>stringOption\<close> only when the directive has no argument.\<close>

theorem resolver_args_ill_typed:
  "\<not> is_format_opt (js_arg (parse_args a))
   \<and> (is_integer_option (js_arg (parse_args a)) \<longleftrightarrow> parse_args a = [])
   \<and> (is_string_option (js_arg (parse_args a)) \<longleftrightarrow> parse_args a = [])"
  using js_arg_parse_args_cases [of a] js_arg_parse_args(3) [of a] by auto

lemma js_get_stringify:
  "js_get (JObj (stringify_props ps)) = (\<lambda>k. num_to_str (js_get (JObj ps) k))"
  by (rule ext) (simp add: stringify_props_def map_of_map split: option.splits)

lemma bound_value_num_to_str: "bound_value (num_to_str v) d = bound_value v d"
  by (cases v) (simp_all add: bound_value_def js_value_simps)

lemma opt_int_num_to_str: "opt_int d (num_to_str v) = opt_int d v"
  by (cases v) (simp_all add: opt_int_def js_default_def)

text \<open>C21: numbers and their decimal strings are interchangeable in the options of
  \<open>integer\<close> and \<open>string\<close>: \<open>integer({min: "3", max: "9"})\<close> behaves as
  \<open>integer({min: 3, max: 9})\<close>, and \<open>string({len: "7"})\<close> as \<open>string({len: 7})\<close>, draw for
  draw.\<close>

theorem options_number_string_equiv:
  "integer (JObj (stringify_props ps)) rng = integer (JObj ps) rng
   \<and> string_gen c (JObj (stringify_props ps)) rng = string_gen c (JObj ps) rng"
proof
  show "integer (JObj (stringify_props ps)) rng = integer (JObj ps) rng"
    by (simp add: integer_def js_destructure_def js_get_stringify bound_value_num_to_str)
next
  have "string_min c (js_get (JObj (stringify_props ps))) = string_min c (js_get (JObj ps))"
    and "string_max c (js_get (JObj (stringify_props ps))) = string_max c (js_get (JObj ps))"
    and "string_len (js_get (JObj (stringify_props ps))) = string_len (js_get (JObj ps))"
    by (simp_all add: js_get_stringify string_min_def string_max_def string_len_def opt_int_num_to_str)
  then show "string_gen c (JObj (stringify_props ps)) rng = string_gen c (JObj ps) rng"
    by (simp add: string_gen_def get_length_obj)
qed

end
