(* ===== verification/Spec2Isabelle.thy ===== *)
theory Spec2Isabelle
  imports Resolver_Spec Option_Types
begin

text \<open>
  \<^bold>\<open>A verification model of the mock-value resolver and its random generators.\<close>

  \<^bold>\<open>The program.\<close> Two components. The placeholder resolver
  (\<^verbatim>\<open>src/hl/src/parser.ts\<close>, function \<open>parser\<close>) matches a directive
  \<^verbatim>\<open>@op(args)\<close> anywhere in its input with \<^verbatim>\<open>/@(\w+)\((.*)\)/\<close>, splits the
  arguments on commas, turns all-digit arguments into numbers, looks the opcode up in
  the built-in generators (\<^verbatim>\<open>random[opt]\<close>) and then in the external registry
  (\<^verbatim>\<open>use(opt)\<close>), and calls the generator with the arguments spread; an input with
  no directive is returned unchanged, an unknown opcode gives \<open>undefined\<close>. The random
  generators (\<^verbatim>\<open>src/lsd/src/random/basic.ts\<close>) are \<open>integer\<close>, \<open>char\<close>, \<open>string\<close>
  (with its length policy \<open>_getLength\<close>), \<open>boolean\<close>, \<open>randomDate\<close>, \<open>date\<close> and
  \<open>time\<close>; each reads an options object.

  \<^bold>\<open>The theories.\<close>
  \<^item> \<open>Prelude\<close>: the random source as a stream of the values \<open>Math.random()\<close>
    returns (\<open>rng\<close>, its contract \<open>draws_ok\<close>), results with errors
    (\<open>ebind\<close>, \<open>rbind\<close>), searches from the end of an index range, decimal digit
    strings.
  \<^item> \<open>JS_Runtime\<close>: the JavaScript the code relies on: values (\<open>jsval\<close>), the
    \<open>TypeError\<close> it can throw, the members every object inherits
    (\<open>object_proto_keys\<close>), truthiness and \<open>||\<close> (\<open>js_or\<close>), destructuring
    (\<open>js_destructure\<close>, \<open>js_default\<close>), \<open>ToString\<close> (\<open>js_to_string\<close>),
    \<open>parseInt(_, 10)\<close> (\<open>parse_int\<close>), \<open>Math.round\<close> (\<open>js_round\<close>), \<open>split\<close> and
    \<open>join\<close>; lemmas: \<open>parseInt(String(n)) = n\<close>, split/join roundtrip.
  \<^item> \<open>Generators\<close>: \<^verbatim>\<open>basic.ts\<close>, one definition per function and per guard
    (\<open>integer\<close>, \<open>char_gen\<close>, \<open>get_length\<close> with \<open>clamp_min\<close>/\<open>clamp_max\<close>/\<open>len_ok\<close>,
    \<open>string_loop\<close> and \<open>string_gen\<close>, \<open>boolean\<close>, \<open>random_date\<close>, \<open>date\<close>,
    \<open>time\<close>) and the module's export table \<open>basic_exports\<close>. A generator takes its option value and the random source and returns
    its value or the error it throws, with the rest of the random source. The constants
    of \<^verbatim>\<open>utils/const\<close> are the record \<open>js_consts\<close>, the clock and the \<open>dayjs\<close>
    formatter are fields of \<open>runtime\<close>.
  \<^item> \<open>Resolver\<close>: \<^verbatim>\<open>parser.ts\<close>: the regular expression as the leftmost greedy
    matcher \<open>match_directive\<close>, the arguments \<open>parse_args\<close>, the built-in table
    \<open>builtin\<close>, and \<open>parser\<close>; the pattern's specification \<open>directive_parts\<close> and the
    printers \<open>directive\<close>, \<open>print_args\<close>.
  \<^item> \<open>Resolver_Spec\<close>: the resolver of the specification's design notes
    (\<open>resolve_spec\<close>): the reference regex search \<open>match_directive_ref\<close> (the
    backtracking of \<open>RegExpBuiltinExec\<close> written with indices: every position in turn,
    the lengths of \<^verbatim>\<open>\w+\<close> and of \<^verbatim>\<open>.*\<close> from the longest down, in
    \<open>match_here\<close> and \<open>paren_close\<close>), the tokeniser \<open>tokens\<close>, the tagged
    tokens \<open>Number | Text\<close>, the two-tier lookup \<open>lookup2\<close> and the outcomes
    \<open>Literal | Absent | Call\<close>; \<open>parser\<close> refines it.
  \<^item> \<open>Option_Types\<close>: the TypeScript interfaces \<open>integerOption\<close>, \<open>stringOption\<close>
    and \<open>formatOpt\<close> of \<^verbatim>\<open>basic.ts\<close> as predicates on option values
    (\<open>is_integer_option\<close>, \<open>is_string_option\<close>, \<open>is_format_opt\<close>).
  \<^item> This theory: the properties of the resolver together with the generators.

  \<^bold>\<open>What is proved.\<close>
  \<^item> The resolver (this theory): text without a directive, and \<^verbatim>\<open>@string\<close> without
    parentheses, is returned unchanged; the text around a directive is dropped; an unknown opcode
    that is no inherited member of \<open>Object.prototype\<close> gives \<open>undefined\<close>; the
    built-in table is consulted before \<open>use\<close>; the only errors are those of
    \<open>date\<close>/\<open>time\<close> without an argument and of user generators; \<^verbatim>\<open>@string(...)\<close>
    stays within the length limits; \<^verbatim>\<open>@string(a)\<close> and \<^verbatim>\<open>@integer(a)\<close>
    are \<^verbatim>\<open>@string()\<close> and \<^verbatim>\<open>@integer()\<close> whatever \<open>a\<close>; \<^verbatim>\<open>@boolean()\<close> is \<open>r \<ge> 1/2\<close>;
    \<^verbatim>\<open>@date(x)\<close>/\<^verbatim>\<open>@time(x)\<close> use the default formats and a time in
    \<open>[0, now]\<close>.
  \<^item> Refinement and draw accounting: \<open>parser\<close> computes exactly what the specified
    resolver's outcome does (\<open>Resolver_Spec\<close>, whose matcher is proved equal to the
    model's scanner); \<open>string\<close> reads one draw per character plus at most one,
    \<open>integer\<close>, \<open>date\<close>, \<open>time\<close> one draw when they return and none when they throw,
    \<open>boolean\<close> one (\<open>Generators\<close>); a built-in directive reads at most
    \<open>STRING_MAX_LEN + 1\<close> draws.
  \<^item> The matcher (\<open>Resolver\<close>): a match is an occurrence of the pattern, leftmost and
    with the greedy capture; no match exactly when no occurrence; printing and parsing
    directives roundtrip; parsed arguments are well-formed.
  \<^item> The generators (\<open>Generators\<close>): \<open>string\<close> never throws and stays within the
    limits when its sanitised bounds are ordered, honours a valid \<open>min\<close> as a floor and
    an explicit \<open>len\<close> first, treats a bound \<open>0\<close> as absent; \<open>integer\<close> draws between
    its bounds in either order and over the safe integers by default; the loop of
    \<open>string\<close> equals its closed form (the characters \<open>allChar ! round(61 r)\<close> of the
    next draws); every length of the range is reached for some draw; a string bound is read as its leading
    integer, and a number and its decimal string are interchangeable in the options;
    every integer of a range \<open>[min, max]\<close> of at most \<open>2^32\<close> integers is reached for
    some 52-bit draw \<open>j / 2^52\<close>; \<open>integer\<close> throws exactly when a bound is \<open>null\<close>;
    \<open>date\<close>/\<open>time\<close> honour a \<open>format\<close> option and throw on \<open>null\<close>.
  \<^item> The option types (\<open>Option_Types\<close>): every call the TypeScript types admit
    returns without an error, while the resolver's calls are never of type \<open>formatOpt\<close>
    for \<open>date\<close>/\<open>time\<close>.

  \<^bold>\<open>Findings.\<close> The resolver passes positional arguments but every generator reads
  an options object, so \<^verbatim>\<open>@string(min=10,max=40,len=33)\<close> is \<^verbatim>\<open>@string()\<close>
  (a string of length 1 on the draw 0, not 33) and \<^verbatim>\<open>@integer(1,100)\<close> draws over
  the safe integers; \<^verbatim>\<open>@date()\<close> and \<^verbatim>\<open>@time()\<close> throw a \<open>TypeError\<close>
  (destructuring \<open>undefined\<close>); \<open>integer\<close> throws on a \<open>null\<close> bound and returns
  \<open>NaN\<close> on an unreadable one; \<open>string\<close>'s length bounds are no invariant (a
  \<open>min\<close> above \<open>STRING_MAX_LEN\<close> is kept, and a negative \<open>max\<close> gives a string
  shorter than \<open>STRING_MIN_LEN\<close>); the \<^verbatim>\<open>// @ts-ignore\<close> on the resolver's lookup
  hides that it calls the generators outside their option types; an embedded
  directive replaces the whole input by the generated value.

  \<^bold>\<open>Bounds and modelling choices.\<close> The length constants are parameters with
  \<open>0 \<le> STRING_MIN_LEN \<le> STRING_MAX_LEN\<close> (\<open>consts_ok\<close>), since their values are
  not in the sources. \<open>Math.random\<close> values are exact reals of \<open>[0, 1)\<close>; numbers are
  exact integers and \<open>NaN\<close>: floating point rounding, numbers beyond \<open>2^53\<close> and
  exponent notation of \<open>ToString\<close> are not modelled. Strings are lists of 8-bit
  characters (JavaScript's UTF-16 units below 256); the line separators U+2028 and
  U+2029 and the white space beyond Latin-1 are outside that range. No loop needs fuel: the string loop
  runs \<open>strLen\<close> times and is a \<^theory_text>\<open>primrec\<close>, the matcher recurses on its input,
  the reference tokeniser terminates by the length of its input, the reference
  matcher searches finite index ranges. The surjectivity of \<open>integer\<close> is stated for
  the draws \<open>j / 2^52\<close> (the values of a 52-bit \<open>Math.random\<close>) and ranges of at
  most \<open>2^32\<close> integers: the draws are then at most \<open>2^-20\<close> apart after scaling, so
  each integer has its own draws; over the default range of \<open>2^54\<close> integers they
  are not.

  \<^bold>\<open>Not modelled.\<close> What the sources do not contain: the \<open>use\<close> registry of
  \<^verbatim>\<open>./custom/use\<close> (a parameter of \<open>parser\<close>, constrained only by the random-source
  contract where a theorem needs it), the values of the constants of
  \<^verbatim>\<open>utils/const\<close> (parameters with \<open>consts_ok\<close>), the module \<^verbatim>\<open>./random\<close>
  (modelled from the spec as the re-export of \<open>basic_exports\<close>), the
  \<^verbatim>\<open>|min=5&max=40\<close> syntax the test file uses (its parser is not among the
  sources). What the JavaScript runtime adds to the table: \<open>random[opt]\<close> also
  finds the members every object inherits from \<open>Object.prototype\<close>
  (\<open>object_proto_keys\<close>: \<^verbatim>\<open>@valueOf()\<close> throws, \<^verbatim>\<open>@toString()\<close> returns
  \<^verbatim>\<open>[object Undefined]\<close>), and \<open>func?.()\<close> throws on a truthy non-function; the table
  \<open>builtin\<close> holds the own exports only and the registry returns functions, so the
  theorems about arbitrary opcodes exclude these names. What is an external library: \<open>dayjs\<close> formatting and the clock (the
  parameters \<open>dayjs_format\<close> and \<open>now\<close>). What the model abstracts: the distribution
  of the draws (only which values are possible), and IEEE floating point: the draw
  \<open>Math.random() * (max - min) + min\<close> is computed on exact reals, so the rounding of
  large ranges (the default range spans \<open>2^54\<close>, beyond the 53-bit mantissa) is not
  modelled. With these, every function of the two source files is modelled; the
  remaining lines are imports, comments and the export list's punctuation.
\<close>

section \<open>A sample environment\<close>

text \<open>The environment the concrete instances below run in: string lengths 1 to 50, a
  clock at 1000 ms after the epoch, a formatter that prints the format string, and no
  external generators.\<close>

abbreviation sample_env :: runtime where
  "sample_env \<equiv> \<lparr>cfg = \<lparr>STRING_MIN_LEN = 1, STRING_MAX_LEN = 50, DATE_DEFAULT_FOMAT = ''YYYY-MM-DD'',
                          TIME_DEFAULT_FOMAT = ''HH:mm:ss''\<rparr>,
                  now = 1000, dayjs_format = (\<lambda>f t. js_to_string f)\<rparr>"

abbreviation no_use :: registry where
  "no_use \<equiv> (\<lambda>n. None)"

section \<open>The resolver on the built-in generators\<close>

lemma parser_match_builtin:
  assumes "match_directive value = Some (op, a)" and "builtin e op = Some f"
  shows "parser e use value rng = f (parse_args a) rng"
  using assms by (simp add: parser_def)

lemma word_opcodes [simp]:
  "directive_parts ''string'' a \<longleftrightarrow> \<not> list_ex is_line_term a"
  "directive_parts ''integer'' a \<longleftrightarrow> \<not> list_ex is_line_term a"
  "directive_parts ''date'' a \<longleftrightarrow> \<not> list_ex is_line_term a"
  "directive_parts ''time'' a \<longleftrightarrow> \<not> list_ex is_line_term a"
  "directive_parts ''boolean'' a \<longleftrightarrow> \<not> list_ex is_line_term a"
  by (simp_all add: directive_parts_def is_word_char_def)

lemma builtin_names [simp]:
  "builtin e ''string'' = Some (\<lambda>args. string_gen (cfg e) (js_arg args))"
  "builtin e ''integer'' = Some (\<lambda>args. integer (js_arg args))"
  "builtin e ''date'' = Some (\<lambda>args. date e (js_arg args))"
  "builtin e ''time'' = Some (\<lambda>args. time e (js_arg args))"
  "builtin e ''boolean'' = Some (\<lambda>args. boolean)"
  by (simp_all add: builtin_simps)

lemma parser_directive:
  assumes "directive_parts op a" and "builtin e op = Some f"
  shows "parser e use (directive op a) rng = f (parse_args a) rng"
  using parser_match_builtin [OF match_directive_directive [OF assms(1)] assms(2)] .

lemma parser_string:
  "\<not> list_ex is_line_term a \<Longrightarrow>
     parser e use (directive ''string'' a) rng = string_gen (cfg e) JUndef rng"
proof -
  assume "\<not> list_ex is_line_term a"
  then have "parser e use (directive ''string'' a) rng = string_gen (cfg e) (js_arg (parse_args a)) rng"
    by (simp add: parser_directive)
  also have "\<dots> = string_gen (cfg e) JUndef rng"
    by (rule string_gen_primitive_eq) (rule js_arg_parse_args(2))
  finally show ?thesis .
qed

lemma parser_integer:
  "\<not> list_ex is_line_term a \<Longrightarrow> parser e use (directive ''integer'' a) rng = integer JUndef rng"
proof -
  assume "\<not> list_ex is_line_term a"
  then have "parser e use (directive ''integer'' a) rng = integer (js_arg (parse_args a)) rng"
    by (simp add: parser_directive)
  also have "\<dots> = integer JUndef rng"
    using integer_primitive [OF js_arg_parse_args(2)] integer_primitive [of JUndef] by simp
  finally show ?thesis .
qed

text \<open>C1: \<^verbatim>\<open>@string(...)\<close> resolves to a string whose length lies within
  \<open>[STRING_MIN_LEN, STRING_MAX_LEN]\<close>, whatever its arguments, and never throws.\<close>

theorem parser_string_in_limits:
  assumes "consts_ok (cfg e)" and "draws_ok rng" and "\<not> list_ex is_line_term a"
  shows "\<exists>s rng'. parser e use (directive ''string'' a) rng = (Inr (JStr s), rng')
                  \<and> STRING_MIN_LEN (cfg e) \<le> int (length s) \<and> int (length s) \<le> STRING_MAX_LEN (cfg e)"
  using string_gen_undefined_bounded [OF assms(1,2)] parser_string [OF assms(3)] by simp

theorem parser_string_in_limits_witness:
  "\<exists>s rng'. parser \<lparr>cfg = \<lparr>STRING_MIN_LEN = 1, STRING_MAX_LEN = 50, DATE_DEFAULT_FOMAT = [], TIME_DEFAULT_FOMAT = []\<rparr>,
                      now = 0, dayjs_format = (\<lambda>f t. [])\<rparr> (\<lambda>n. None)
       (directive ''string'' ''min=asdfa,max=esifen'') (sconst 0) = (Inr (JStr s), rng')
     \<and> 1 \<le> int (length s) \<and> int (length s) \<le> 50"
  using parser_string_in_limits
    [of "\<lparr>cfg = \<lparr>STRING_MIN_LEN = 1, STRING_MAX_LEN = 50, DATE_DEFAULT_FOMAT = [], TIME_DEFAULT_FOMAT = []\<rparr>,
          now = 0, dayjs_format = (\<lambda>f t. [])\<rparr>" "sconst 0" "''min=asdfa,max=esifen''" "\<lambda>n. None"]
  by (simp add: consts_ok_def is_line_term_def)

text \<open>C2: the arguments of \<^verbatim>\<open>@string(...)\<close> are ignored: the resolver passes them
  positionally, \<open>string\<close> reads \<open>min\<close>, \<open>max\<close> and \<open>len\<close> from an options object,
  and a number or a string has none of them. \<^verbatim>\<open>@string(min=10,max=40,len=33)\<close>
  is \<^verbatim>\<open>@string()\<close>.\<close>

theorem parser_string_ignores_args:
  assumes "\<not> list_ex is_line_term a"
  shows "parser e use (directive ''string'' a) rng = parser e use (directive ''string'' []) rng"
  using parser_string [OF assms] parser_string [of "[]"] by simp

theorem parser_string_ignores_args_witness:
  "parser sample_env no_use (directive ''string'' ''min=10,max=40,len=33'') (sconst 0)
     = parser sample_env no_use (directive ''string'' []) (sconst 0)"
  by (rule parser_string_ignores_args) (simp add: is_line_term_def)

text \<open>C3: \<^verbatim>\<open>@date()\<close> and \<^verbatim>\<open>@time()\<close> throw a \<open>TypeError\<close>: with no argument
  the generator destructures \<open>undefined\<close>. No random value is consumed.\<close>

theorem parser_date_time_no_args_throw:
  "parser e use ''@date()'' rng = (Inl TypeError, rng) \<and> parser e use ''@time()'' rng = (Inl TypeError, rng)"
proof -
  have "parse_args [] = []" by (simp add: parse_args_def)
  moreover have "''@date()'' = directive ''date'' []" "''@time()'' = directive ''time'' []"
    by (simp_all add: directive_def)
  ultimately show ?thesis
    using parser_directive [of "''date''" "[]" e] parser_directive [of "''time''" "[]" e]
    by (simp add: js_arg_def)
qed

text \<open>C4: the only errors the resolver raises: \<^verbatim>\<open>date\<close> or \<^verbatim>\<open>time\<close> called
  without an argument, or a user generator of the \<open>use\<close> registry throwing. The
  built-in \<open>integer\<close>, \<open>string\<close> and \<open>boolean\<close>, a literal input and an unknown
  opcode never throw. The opcode is not a member every object inherits from
  \<open>Object.prototype\<close> (\<^verbatim>\<open>@valueOf()\<close> calls that member and throws).\<close>

theorem parser_error_cases:
  assumes "draws_ok rng" and "fst (parser e use value rng) = Inl err"
    and "\<forall>op a. match_directive value = Some (op, a) \<longrightarrow> op \<notin> set object_proto_keys"
  shows "\<exists>op a. match_directive value = Some (op, a)
           \<and> ((op \<in> {''date'', ''time''} \<and> parse_args a = []) \<or> (builtin e op = None \<and> use op \<noteq> None))"
proof (cases "match_directive value")
  case None
  with assms(2) show ?thesis by (simp add: parser_def)
next
  case (Some m)
  obtain op a where m: "m = (op, a)" by fastforce
  let ?v = "js_arg (parse_args a)"
  have prim: "\<And>ps. ?v \<noteq> JObj ps" and nn: "?v \<noteq> JNull" by (rule js_arg_parse_args)+
  show ?thesis
  proof (cases "builtin e op")
    case None
    with assms(2) Some m show ?thesis by (auto simp: parser_def split: option.splits)
  next
    case (Some f)
    have run: "parser e use value rng = f (parse_args a) rng"
      using parser_match_builtin [OF _ Some] \<open>match_directive value = Some m\<close> m by simp
    have "op \<in> {''date'', ''time''} \<and> parse_args a = []"
    proof (cases "op = ''date'' \<or> op = ''time''")
      case True
      have "?v = JUndef"
      proof (rule ccontr)
        assume "?v \<noteq> JUndef"
        with True Some run assms(2) prim nn show False
          by (auto simp: builtin_simps date_primitive time_primitive split: prod.splits)
      qed
      with True show ?thesis using js_arg_parse_args(3) by auto
    next
      case False
      then have "op = ''integer'' \<or> op = ''string'' \<or> op = ''boolean''"
        using Some by (auto simp: builtin_simps split: if_splits)
      moreover have "\<exists>v. integer ?v rng = (Inr v, stl rng)" by (rule integer_primitive_no_error) (rule prim)
      moreover have "\<exists>s rng'. string_gen (cfg e) ?v rng = (Inr (JStr s), rng')"
        by (rule string_gen_no_error [OF assms(1)])
      ultimately have False
        using Some run assms(2) by (auto simp: builtin_simps boolean_draw)
      then show ?thesis ..
    qed
    with \<open>match_directive value = Some m\<close> m show ?thesis by blast
  qed
qed

theorem parser_error_cases_witness:
  "\<exists>op a. match_directive ''@date()'' = Some (op, a)
     \<and> ((op \<in> {''date'', ''time''} \<and> parse_args a = []) \<or> (builtin sample_env op = None \<and> no_use op \<noteq> None))"
proof (rule parser_error_cases [of "sconst 0" sample_env no_use "''@date()''" TypeError])
  show "draws_ok (sconst (0::real))" by simp
  show "\<forall>op a. match_directive ''@date()'' = Some (op, a) \<longrightarrow> op \<notin> set object_proto_keys"
    by (simp add: match_at_def last_paren_prefix_def is_word_char_def is_line_term_def object_proto_keys_def)
  have "''@date()'' = directive ''date'' []" by (simp add: directive_def)
  then show "fst (parser sample_env no_use ''@date()'' (sconst 0)) = Inl TypeError"
    using parser_directive [of "''date''" "[]" sample_env] by (simp add: parse_args_def js_arg_def)
qed

text \<open>C5: an input in which the pattern does not occur is returned unchanged, and no
  random value is consumed (the identity fallback for literal text).\<close>

theorem parser_literal:
  assumes "\<not> (\<exists>pre op a post. value = pre @ CHR ''@'' # op @ CHR ''('' # a @ CHR '')'' # post
                                \<and> directive_parts op a)"
  shows "parser e use value rng = (Inr (JStr value), rng)"
proof -
  have "match_directive value = None"
  proof (rule ccontr)
    assume "match_directive value \<noteq> None"
    then obtain op a where "match_directive value = Some (op, a)" by auto
    then obtain pre post where "value = pre @ CHR ''@'' # op @ CHR ''('' # a @ CHR '')'' # post"
        and "directive_parts op a"
      using match_directive_Some by blast
    with assms show False by blast
  qed
  then show ?thesis by (simp add: parser_def)
qed

theorem parser_literal_witness:
  "parser sample_env no_use ''plain text'' (sconst 0) = (Inr (JStr ''plain text''), sconst 0)"
  by (rule parser_literal) (use no_at_no_directive [of "''plain text''"] in simp)

text \<open>C33: a directive whose opcode is in neither registry, and is not a member every
  object inherits from \<open>Object.prototype\<close>, resolves to \<open>undefined\<close>, without an error and
  without consuming a random value.\<close>

theorem parser_unknown_opcode:
  assumes "match_directive value = Some (op, a)" and "builtin e op = None" and "use op = None"
    and "op \<notin> set object_proto_keys"
  shows "parser e use value rng = (Inr JUndef, rng)"
  using assms by (simp add: parser_def)

theorem parser_unknown_opcode_witness:
  "parser sample_env no_use ''@foo(1,2,bar)'' (sconst 0) = (Inr JUndef, sconst 0)"
  by (rule parser_unknown_opcode [where op = "''foo''" and a = "''1,2,bar''"])
     (simp_all add: match_at_def last_paren_prefix_def is_word_char_def is_line_term_def builtin_simps
        object_proto_keys_def)

text \<open>C34: the built-in generators come first: for an opcode of the built-in table the
  external registry is never consulted.\<close>

theorem parser_builtin_first:
  assumes "match_directive value = Some (op, a)" and "builtin e op \<noteq> None"
  shows "parser e use1 value rng = parser e use2 value rng"
  using assms by (auto simp: parser_def)

theorem parser_builtin_first_witness:
  "parser sample_env no_use ''@boolean()'' (sconst 0)
     = parser sample_env (\<lambda>n. Some (\<lambda>args r. (Inr JNull, r))) ''@boolean()'' (sconst 0)"
  by (rule parser_builtin_first [where op = "''boolean''" and a = "[]"])
     (simp_all add: match_at_def last_paren_prefix_def is_word_char_def is_line_term_def)

text \<open>C24: the arguments of \<^verbatim>\<open>@integer(...)\<close> are ignored as well:
  \<^verbatim>\<open>@integer(a)\<close> is \<^verbatim>\<open>@integer()\<close>, draw for draw, whatever \<open>a\<close>, and so
  its result is drawn over \<open>[Number.MIN_SAFE_INTEGER, Number.MAX_SAFE_INTEGER]\<close>:
  \<^verbatim>\<open>@integer(1,100)\<close> is not bounded by 1 and 100.\<close>

theorem parser_integer_ignores_args:
  assumes "draws_ok rng" and "\<not> list_ex is_line_term a"
  shows "parser e use (directive ''integer'' a) rng = parser e use (directive ''integer'' []) rng
         \<and> (\<exists>k. parser e use (directive ''integer'' a) rng = (Inr (JNum k), stl rng)
                 \<and> MIN_SAFE_INTEGER \<le> k \<and> k \<le> MAX_SAFE_INTEGER)"
proof
  show "parser e use (directive ''integer'' a) rng = parser e use (directive ''integer'' []) rng"
    using parser_integer [OF assms(2)] parser_integer [of "[]"] by simp
next
  have "MIN_SAFE_INTEGER \<le> MAX_SAFE_INTEGER" by (simp add: MIN_SAFE_INTEGER_def MAX_SAFE_INTEGER_def)
  from integer_in_range [OF assms(1) this]
  show "\<exists>k. parser e use (directive ''integer'' a) rng = (Inr (JNum k), stl rng)
             \<and> MIN_SAFE_INTEGER \<le> k \<and> k \<le> MAX_SAFE_INTEGER"
    using parser_integer [OF assms(2)] integer_primitive [of JUndef] by simp
qed

theorem parser_integer_ignores_args_witness:
  "parser sample_env no_use (directive ''integer'' ''1,100'') (sconst 0)
     = parser sample_env no_use (directive ''integer'' []) (sconst 0)
   \<and> (\<exists>k. parser sample_env no_use (directive ''integer'' ''1,100'') (sconst 0) = (Inr (JNum k), stl (sconst 0))
       \<and> MIN_SAFE_INTEGER \<le> k \<and> k \<le> MAX_SAFE_INTEGER)"
  by (rule parser_integer_ignores_args) (simp_all add: is_line_term_def)

text \<open>C35: \<^verbatim>\<open>@date(x)\<close> and \<^verbatim>\<open>@time(x)\<close> with an argument render one random
  time between the epoch and now in the default date or time format: the argument is
  not a format.\<close>

theorem parser_date_time_default_format:
  assumes "draws_ok rng" and "0 \<le> now e" and "now e \<le> 8640000000000000"
    and "\<not> list_ex is_line_term a" and "parse_args a \<noteq> []"
  shows "\<exists>t. parser e use (directive ''date'' a) rng
               = (Inr (JStr (dayjs_format e (JStr (DATE_DEFAULT_FOMAT (cfg e))) (Some t))), stl rng)
             \<and> parser e use (directive ''time'' a) rng
               = (Inr (JStr (dayjs_format e (JStr (TIME_DEFAULT_FOMAT (cfg e))) (Some t))), stl rng)
             \<and> 0 \<le> t \<and> t \<le> now e"
proof -
  obtain t where t: "random_date (now e) rng = (Some t, stl rng)" and "0 \<le> t" "t \<le> now e"
    using random_date_in_range [OF assms(1,2,3)] by blast
  have "js_arg (parse_args a) \<noteq> JUndef" using assms(5) js_arg_parse_args(3) by blast
  then have "parser e use (directive ''date'' a) rng
      = (Inr (JStr (dayjs_format e (JStr (DATE_DEFAULT_FOMAT (cfg e))) (Some t))), stl rng)"
    and "parser e use (directive ''time'' a) rng
      = (Inr (JStr (dayjs_format e (JStr (TIME_DEFAULT_FOMAT (cfg e))) (Some t))), stl rng)"
    using assms(4) t date_primitive [OF _ js_arg_parse_args(1,2)] time_primitive [OF _ js_arg_parse_args(1,2)]
    by (simp_all add: parser_directive)
  with \<open>0 \<le> t\<close> \<open>t \<le> now e\<close> show ?thesis by blast
qed

theorem parser_date_time_default_format_witness:
  "\<exists>t. parser sample_env no_use (directive ''date'' ''HH'') (sconst 0)
         = (Inr (JStr ''YYYY-MM-DD''), stl (sconst 0))
       \<and> parser sample_env no_use (directive ''time'' ''HH'') (sconst 0)
         = (Inr (JStr ''HH:mm:ss''), stl (sconst 0))
       \<and> 0 \<le> t \<and> t \<le> (1000::int)"
  using parser_date_time_default_format [of "sconst 0" sample_env "''HH''" no_use]
  by (simp add: is_line_term_def parse_args_def arg_of_token_def is_digit_def)

text \<open>C37: \<^verbatim>\<open>@boolean()\<close> consumes one value of \<open>Math.random\<close> and is true exactly
  when that value is at least one half.\<close>

theorem parser_boolean:
  "parser e use ''@boolean()'' rng = (Inr (JBool (1 / 2 \<le> shd rng)), stl rng)"
proof -
  have "''@boolean()'' = directive ''boolean'' []" by (simp add: directive_def)
  then show ?thesis using parser_directive [of "''boolean''" "[]" e] by (simp add: boolean_draw)
qed

text \<open>C9: every call of a built-in directive finishes after a bounded number of draws:
  at most \<open>STRING_MAX_LEN + 1\<close> (for \<^verbatim>\<open>@string\<close>, one for the length and one per
  character), at most one for the other generators.\<close>

theorem parser_draws_bounded:
  assumes "consts_ok (cfg e)" and "draws_ok rng" and "builtin e op \<noteq> None"
    and "\<not> list_ex is_line_term a"
  shows "\<exists>n \<le> nat (STRING_MAX_LEN (cfg e)) + 1. snd (parser e use (directive op a) rng) = sdrop n rng"
proof -
  let ?B = "nat (STRING_MAX_LEN (cfg e)) + 1"
  have one: "\<exists>n \<le> ?B. r = sdrop n rng" if "r = rng \<or> r = stl rng" for r
    using that by (auto intro: exI [of _ 0] exI [of _ 1])
  have "op = ''integer'' \<or> op = ''string'' \<or> op = ''boolean'' \<or> op = ''date'' \<or> op = ''time''"
    using assms(3) by (auto simp: builtin_simps split: if_splits)
  then show ?thesis
  proof (elim disjE)
    assume "op = ''string''"
    then show ?thesis
      using parser_string [OF assms(4)] string_gen_undefined_draws [OF assms(1,2)] by simp
  qed (use assms(4) one integer_rest date_rest time_rest boolean_draw in \<open>simp_all add: parser_directive\<close>)
qed

theorem parser_draws_bounded_witness:
  "\<exists>n \<le> nat 50 + 1. snd (parser sample_env no_use (directive ''string'' ''x'') (sconst 0)) = sdrop n (sconst 0)"
  using parser_draws_bounded [where e = sample_env and rng = "sconst 0" and op = "''string''"
      and a = "''x''" and use = no_use]
  by (simp add: consts_ok_def is_line_term_def)

text \<open>C6: the text around a directive is dropped: the resolver returns only the
  generator's value, so \<^verbatim>\<open>name: @string(5) !\<close> resolves exactly as
  \<^verbatim>\<open>@string(5)\<close> (given no \<^verbatim>\<open>@\<close> before the directive and no \<^verbatim>\<open>)\<close> after it,
  which would move the match or extend its capture).\<close>

theorem parser_drops_context:
  assumes "CHR ''@'' \<notin> set pre" and "directive_parts op a" and "CHR '')'' \<notin> set post"
  shows "parser e use (pre @ directive op a @ post) rng = parser e use (directive op a) rng"
proof -
  have "match_directive (pre @ directive op a @ post) = match_directive (directive op a @ post)"
    using assms(1) by (rule match_directive_skip)
  also have "\<dots> = Some (op, a)"
    using match_at_context [OF assms(2,3)] by (simp add: directive_def)
  finally show ?thesis
    using match_directive_directive [OF assms(2)] by (simp add: parser_def)
qed

theorem parser_drops_context_witness:
  "parser sample_env no_use (''name: '' @ directive ''string'' ''5'' @ '' !'') (sconst 0)
     = parser sample_env no_use (directive ''string'' ''5'') (sconst 0)"
  by (rule parser_drops_context) (simp_all add: is_line_term_def)

end
